theory Spec2Isabelle
  imports Complex_Main
begin

section \<open>MYOB Dash: the gameplay state of \<open>GameScene\<close> (src/src/game.js)\<close>

text \<open>
  The scene object of the game is one mutable bag of fields. The record below holds the
  fields that the gameplay rules read and write; every method of the scene becomes a
  function from a scene to the updated scene.

  JavaScript numbers: counters that only ever hold whole numbers are \<open>int\<close>, times,
  speeds and pixel coordinates are \<open>real\<close>. The two counters that are decremented frame
  after frame and then tested against zero, the coyote counter and the jump buffer
  counter, are rounded to double precision after every subtraction, as the source's
  \<open>-=\<close> does. The other operations are modelled exactly.

  A Phaser timer field is \<open>None\<close> when the field is \<open>null\<close> and \<open>Some d\<close> when it
  holds a pending timer event whose \<open>delay\<close> is \<open>d\<close> milliseconds. A one-shot timer that
  has fired is inert, so it is represented by \<open>None\<close> as well.

  The physics capability is outside the model. What the game logic tells it is kept as
  a log: \<open>velocityYCalls\<close> lists the arguments of the \<open>player.setVelocityY\<close> calls
  made on the current player sprite, the most recent call first.
\<close>

datatype powerUpType = Speed | Shield

record scaleData =
  sdScaleX :: real
  sdScaleY :: real
  sdOriginalWidth :: real
  sdOriginalHeight :: real

record scene =
  score :: int
  highScore :: int
  scoreMultiplier :: int
  gameOver :: bool
  coinsCollectedForPowerUp :: int
  comboCount :: int
  lastCoinCollectTime :: real
  hasDoubleJumped :: bool
  jumpDownActive :: bool
  coyoteTimeCounter :: real
  jumpBufferCounter :: real
  wasInAir :: bool
  scrollSpeed :: real
  spawnDelay :: real
  coinSpawnTimer :: "real option"
  enemySpawnTimer :: "real option"
  gapSpawnTimer :: "real option"
  powerUpTimer :: "real option"
  powerUpFlashEvent :: "real option"
  comboTimer :: "real option"
  powerUpActive :: bool
  activePowerUpType :: "powerUpType option"
  playerScaleX :: real
  playerScaleY :: real
  playerOriginalWidth :: real
  playerOriginalHeight :: real
  playerScaleData :: "scaleData option"
  velocityYCalls :: "real list"

subsection \<open>Constants set by the constructor and never written again\<close>

definition coyoteTimeDuration :: real where "coyoteTimeDuration = 100"
definition jumpBufferDuration :: real where "jumpBufferDuration = 100"
definition baseScrollSpeed :: real where "baseScrollSpeed = 250"
definition maxScrollSpeed :: real where "maxScrollSpeed = 750"
definition speedIncreaseFactor :: real where "speedIncreaseFactor = 6"
definition baseSpawnDelay :: real where "baseSpawnDelay = 1700"
definition minSpawnDelay :: real where "minSpawnDelay = 400"
definition spawnDecreaseFactor :: real where "spawnDecreaseFactor = 18"
definition powerUpDuration :: real where "powerUpDuration = 10000"
definition powerUpSpeedBoost :: real where "powerUpSpeedBoost = 16 / 10"
definition comboTimeWindow :: real where "comboTimeWindow = 1500"
definition baseScore :: int where "baseScore = 10"

text \<open>The scene as the constructor leaves it (lines 6--140).\<close>

definition constructor :: scene where
  "constructor =
     \<lparr> score = 0, highScore = 0, scoreMultiplier = 1, gameOver = False,
       coinsCollectedForPowerUp = 0, comboCount = 0, lastCoinCollectTime = 0,
       hasDoubleJumped = False, jumpDownActive = False,
       coyoteTimeCounter = 0, jumpBufferCounter = 0, wasInAir = False,
       scrollSpeed = 0, spawnDelay = 0,
       coinSpawnTimer = None, enemySpawnTimer = None, gapSpawnTimer = None,
       powerUpTimer = None, powerUpFlashEvent = None, comboTimer = None,
       powerUpActive = False, activePowerUpType = None,
       playerScaleX = 1, playerScaleY = 1,
       playerOriginalWidth = 0, playerOriginalHeight = 0,
       playerScaleData = None, velocityYCalls = [] \<rparr>"

subsection \<open>Timers and spawning\<close>

text \<open>\<open>cleanupTimers\<close> (lines 1805--1818): every timer is removed and its field nulled.\<close>

definition cleanupTimers :: "scene \<Rightarrow> scene" where
  "cleanupTimers s =
     s\<lparr> coinSpawnTimer := None, enemySpawnTimer := None, powerUpTimer := None,
        powerUpFlashEvent := None, gapSpawnTimer := None, comboTimer := None \<rparr>"

text \<open>\<open>startSpawning\<close> (lines 992--1020): three looping timers derived from \<open>spawnDelay\<close>.\<close>

definition startSpawning :: "scene \<Rightarrow> scene" where
  "startSpawning s =
     s\<lparr> coinSpawnTimer := Some (spawnDelay s * (11 / 10)),
        enemySpawnTimer := Some (spawnDelay s),
        gapSpawnTimer := Some (spawnDelay s * 2) \<rparr>"

text \<open>
  \<open>increaseDifficulty\<close> (lines 928--941). A timer's delay is rewritten only when the
  timer field is not null.
\<close>

definition increaseDifficulty :: "real \<Rightarrow> scene \<Rightarrow> scene" where
  "increaseDifficulty deltaSeconds s =
     (let s1 = s\<lparr> scrollSpeed :=
                    min (scrollSpeed s + speedIncreaseFactor * deltaSeconds) maxScrollSpeed \<rparr>;
          s2 = s1\<lparr> spawnDelay :=
                    max (spawnDelay s1 - spawnDecreaseFactor * deltaSeconds) minSpawnDelay \<rparr>;
          s3 = (if coinSpawnTimer s2 \<noteq> None
                then s2\<lparr> coinSpawnTimer := Some (spawnDelay s2 * (11 / 10)) \<rparr> else s2);
          s4 = (if enemySpawnTimer s3 \<noteq> None
                then s3\<lparr> enemySpawnTimer := Some (spawnDelay s3) \<rparr> else s3)
      in if gapSpawnTimer s4 \<noteq> None
         then s4\<lparr> gapSpawnTimer :=
                    Some (max (spawnDelay s4 * (18 / 10)) (minSpawnDelay * (25 / 10))) \<rparr>
         else s4)"

subsection \<open>Scene creation and restart\<close>

text \<open>
  What \<open>create\<close> reads from the loaded assets when no scale has been saved yet: the size
  of the fresh player sprite and whether the sprite sheet texture exists.
\<close>

record assets =
  spriteWidth :: real
  spriteHeight :: real
  hasPlayerSheet :: bool

text \<open>
  \<open>scaleToTargetSize(player, 'player')\<close> (lines 1825--1851) on a fresh sprite of scale
  \<open>(1, 1)\<close> when no scale data is saved: the target size of the player is 24 by 48.
  A loaded sprite has a positive width and height; for a size of 0 JavaScript divides to
  \<open>Infinity\<close> where the division of HOL gives 0.
\<close>

definition scaleToTargetSize :: "assets \<Rightarrow> real \<times> real" where
  "scaleToTargetSize a =
     (if spriteWidth a \<noteq> 24 \<or> spriteHeight a \<noteq> 48
      then (24 / spriteWidth a, 48 / spriteHeight a) else (1, 1))"

text \<open>
  \<open>create\<close> (lines 345--718), the state reset block, the restoration of the player
  scale and the start of the spawn timers. A new player sprite is created, so the log
  of velocity calls starts empty. Fields that \<open>create\<close> does not assign keep the value
  they had: the scene object survives \<open>scene.restart()\<close>.
\<close>

definition create :: "assets \<Rightarrow> scene \<Rightarrow> scene" where
  "create a s =
     (let s1 = cleanupTimers
                 (s\<lparr> score := 0, gameOver := False,
                     scrollSpeed := baseScrollSpeed, spawnDelay := baseSpawnDelay,
                     powerUpActive := False, coinsCollectedForPowerUp := 0,
                     hasDoubleJumped := False, jumpDownActive := False,
                     coyoteTimeCounter := 0, jumpBufferCounter := 0,
                     wasInAir := False \<rparr>);
          s2 = s1\<lparr> activePowerUpType := None, velocityYCalls := [] \<rparr>;
          s3 = (case playerScaleData s2 of
                  Some d \<Rightarrow>
                    s2\<lparr> playerOriginalWidth := sdOriginalWidth d,
                        playerOriginalHeight := sdOriginalHeight d,
                        playerScaleX := sdScaleX d, playerScaleY := sdScaleY d \<rparr>
                | None \<Rightarrow>
                    (let s' = s2\<lparr> playerOriginalWidth := spriteWidth a,
                                  playerOriginalHeight := spriteHeight a \<rparr>
                     in if hasPlayerSheet a
                        then s'\<lparr> playerScaleX := fst (scaleToTargetSize a),
                                 playerScaleY := snd (scaleToTargetSize a) \<rparr>
                        else s'))
      in startSpawning s3)"

text \<open>
  \<open>restartGame\<close> (lines 1779--1800). \<open>fadeRunning\<close> is the camera's
  \<open>fadeEffect.isRunning\<close>. The scale is saved in the scene's data manager and
  \<open>scene.restart()\<close> runs \<open>create\<close> again on the same scene object.
\<close>

definition restartGame :: "assets \<Rightarrow> bool \<Rightarrow> scene \<Rightarrow> scene" where
  "restartGame a fadeRunning s =
     (if \<not> gameOver s \<or> fadeRunning then s
      else
        (let s1 = cleanupTimers s;
             s2 = s1\<lparr> playerScaleData :=
                        Some \<lparr> sdScaleX = playerScaleX s1, sdScaleY = playerScaleY s1,
                               sdOriginalWidth = playerOriginalWidth s1,
                               sdOriginalHeight = playerOriginalHeight s1 \<rparr> \<rparr>
         in create a s2))"

subsection \<open>Game over\<close>

text \<open>\<open>endGame\<close> (lines 1736--1774).\<close>

definition endGame :: "scene \<Rightarrow> scene" where
  "endGame s =
     (if gameOver s then s
      else
        (let s1 = cleanupTimers (s\<lparr> gameOver := True \<rparr>)
         in if powerUpActive s1
            then s1\<lparr> powerUpActive := False, activePowerUpType := None \<rparr>
            else s1))"

subsection \<open>Power-ups\<close>

text \<open>
  \<open>triggerPowerUp\<close> (lines 1468--1623). \<open>pick\<close> is the value returned by
  \<open>Phaser.Math.RND.pick(['speed', 'shield'])\<close>. The flashing timer is started for the
  speed power-up only.
\<close>

definition triggerPowerUp :: "powerUpType \<Rightarrow> scene \<Rightarrow> scene" where
  "triggerPowerUp pick s =
     (if powerUpActive s then s
      else
        (let s1 = s\<lparr> activePowerUpType := Some pick, powerUpActive := True,
                      coinsCollectedForPowerUp := 0,
                      powerUpTimer := Some powerUpDuration \<rparr>
         in if activePowerUpType s1 = Some Speed
            then s1\<lparr> powerUpFlashEvent := Some 100 \<rparr>
            else s1))"

text \<open>\<open>endPowerUp\<close> (lines 1628--1661).\<close>

definition endPowerUp :: "scene \<Rightarrow> scene" where
  "endPowerUp s =
     s\<lparr> powerUpActive := False, activePowerUpType := None,
        powerUpFlashEvent := None, powerUpTimer := None \<rparr>"

subsection \<open>Collision handlers\<close>

text \<open>
  \<open>collectCoin\<close> (lines 1296--1422). \<open>coinActive\<close> is \<open>coin.active\<close>, \<open>now\<close> is
  \<open>this.time.now\<close> and \<open>pick\<close> the random choice handed on to \<open>triggerPowerUp\<close>.
\<close>

definition collectCoin :: "bool \<Rightarrow> real \<Rightarrow> powerUpType \<Rightarrow> scene \<Rightarrow> scene" where
  "collectCoin coinActive now pick s =
     (if \<not> coinActive then s
      else
        (let s1 = (if now - lastCoinCollectTime s < comboTimeWindow
                   then
                     (let c = s\<lparr> comboCount := comboCount s + 1, comboTimer := None \<rparr>
                      in if comboCount c \<ge> 8 then c\<lparr> scoreMultiplier := 4 \<rparr>
                         else if comboCount c \<ge> 5 then c\<lparr> scoreMultiplier := 3 \<rparr>
                         else if comboCount c \<ge> 3 then c\<lparr> scoreMultiplier := 2 \<rparr>
                         else c\<lparr> scoreMultiplier := 1 \<rparr>)
                   else s\<lparr> comboCount := 1, scoreMultiplier := 1 \<rparr>);
             s2 = s1\<lparr> comboTimer := Some comboTimeWindow, lastCoinCollectTime := now \<rparr>;
             scoreValue = baseScore * scoreMultiplier s2;
             s3 = s2\<lparr> score := score s2 + scoreValue \<rparr>;
             s4 = s3\<lparr> coinsCollectedForPowerUp := coinsCollectedForPowerUp s3 + 1 \<rparr>
         in if \<not> powerUpActive s4 \<and> coinsCollectedForPowerUp s4 \<ge> 20
            then (triggerPowerUp pick s4)\<lparr> coinsCollectedForPowerUp := 0 \<rparr>
            else s4))"

text \<open>The callback of the combo timer (lines 1384--1388).\<close>

definition comboExpired :: "scene \<Rightarrow> scene" where
  "comboExpired s = s\<lparr> comboCount := 0, scoreMultiplier := 1, comboTimer := None \<rparr>"

text \<open>\<open>hitEnemy\<close> (lines 1683--1731).\<close>

definition hitEnemy :: "scene \<Rightarrow> scene" where
  "hitEnemy s =
     (if gameOver s then s
      else if activePowerUpType s = Some Shield \<and> powerUpActive s
      then s\<lparr> powerUpActive := False, activePowerUpType := None, powerUpTimer := None \<rparr>
      else endGame s)"

text \<open>
  The colliders between the player and the two enemy groups (lines 651--652) are
  registered with the process callback \<open>() => !this.powerUpActive && !this.gameOver\<close>.
  Arcade physics calls the process callback first and, when it returns \<open>false\<close>, neither
  separates the bodies nor calls the collide callback \<open>hitEnemy\<close>.
\<close>

definition processCallback :: "scene \<Rightarrow> bool" where
  "processCallback s = (\<not> powerUpActive s \<and> \<not> gameOver s)"

definition enemyCollider :: "scene \<Rightarrow> scene" where
  "enemyCollider s = (if processCallback s then hitEnemy s else s)"

text \<open>
  \<open>playerFellInPit\<close> (lines 2287--2295). \<open>touchingDown\<close> is \<open>player.body.touching.down\<close>,
  \<open>playerBottom\<close> is \<open>player.body.bottom\<close> and \<open>pitTop\<close> is \<open>pit.body.top\<close>; the y axis points down.
\<close>

definition playerFellInPit :: "bool \<Rightarrow> real \<Rightarrow> real \<Rightarrow> scene \<Rightarrow> scene" where
  "playerFellInPit touchingDown playerBottom pitTop s =
     (if gameOver s then s
      else if touchingDown \<and> playerBottom \<ge> pitTop + 5 then endGame s
      else s)"

subsection \<open>The per-frame update\<close>

text \<open>
  What one call of \<open>update(time, delta)\<close> observes from its environment: the frame delta
  in milliseconds, the two \<open>JustDown\<close> key tests, \<open>player.body.touching.down\<close>, whether
  the player and its body exist, and the player's \<open>y\<close>, its \<open>height\<close> and the height of
  the scene.
\<close>

record frame =
  delta :: real
  isJumpKeyDown :: bool
  isDownKeyDown :: bool
  touchingGround :: bool
  bodyPresent :: bool
  playerY :: real
  playerHeight :: real
  sceneHeight :: real

definition setVelocityY :: "real \<Rightarrow> scene \<Rightarrow> scene" where
  "setVelocityY v s = s\<lparr> velocityYCalls := v # velocityYCalls s \<rparr>"

text \<open>
  The ground jump block, written out four times in the source (lines 764--766, 780--782,
  954--956 and 966--968), and the double jump block (lines 789--792 and 975--978).
\<close>

definition groundJump :: "scene \<Rightarrow> scene" where
  "groundJump s = (setVelocityY (- 575) s)\<lparr> coyoteTimeCounter := 0, jumpBufferCounter := 0 \<rparr>"

definition doubleJump :: "scene \<Rightarrow> scene" where
  "doubleJump s =
     (setVelocityY (- 500) s)\<lparr> hasDoubleJumped := True,
                                coyoteTimeCounter := 0, jumpBufferCounter := 0 \<rparr>"

text \<open>
  Rounding to double precision (IEEE 754 binary64, round to nearest, ties to even): a
  real is rounded to the nearest multiple of its unit in the last place, which is
  \<open>2\<close> to the power \<open>e - 52\<close> for a magnitude in the binade of \<open>2\<close> to the \<open>e\<close> and
  \<open>2\<close> to the \<open>-1074\<close> below the normal range. Overflow to infinity is left out: the
  counters stay far below the largest double.
\<close>

definition roundTiesToEven :: "real \<Rightarrow> int" where
  "roundTiesToEven y =
     (let n = \<lfloor>y\<rfloor>; r = y - of_int n
      in if r < 1 / 2 then n else if r > 1 / 2 then n + 1
         else if even n then n else n + 1)"

definition ulp :: "real \<Rightarrow> real" where
  "ulp x = 2 powr (of_int (max \<lfloor>log 2 \<bar>x\<bar>\<rfloor> (- 1022)) - 52)"

definition toDouble :: "real \<Rightarrow> real" where
  "toDouble x = (if x = 0 then 0 else ulp x * of_int (roundTiesToEven (x / ulp x)))"

text \<open>Landing logic (lines 752--774).\<close>

definition landingLogic :: "frame \<Rightarrow> scene \<Rightarrow> scene" where
  "landingLogic f s =
     (if touchingGround f
      then
        (let s1 = s\<lparr> wasInAir := False, hasDoubleJumped := False, jumpDownActive := False,
                      coyoteTimeCounter := coyoteTimeDuration \<rparr>
         in if jumpBufferCounter s1 > 0 then groundJump s1 else s1)
      else s\<lparr> wasInAir := False,
             coyoteTimeCounter := toDouble (coyoteTimeCounter s - delta f) \<rparr>)"

text \<open>Player jump logic (lines 776--801).\<close>

definition jumpLogic :: "frame \<Rightarrow> scene \<Rightarrow> scene" where
  "jumpLogic f s =
     (if isJumpKeyDown f
      then
        (if touchingGround f \<or> coyoteTimeCounter s > 0 then groundJump s
         else if \<not> touchingGround f \<and> \<not> hasDoubleJumped s then doubleJump s
         else if \<not> touchingGround f then s\<lparr> jumpBufferCounter := jumpBufferDuration \<rparr>
         else s)
      else s)"

text \<open>
  The decrement of the jump buffer and, as its \<open>else if\<close>, the jump down
  (lines 803--812).
\<close>

definition jumpDownLogic :: "frame \<Rightarrow> scene \<Rightarrow> scene" where
  "jumpDownLogic f s =
     (if jumpBufferCounter s > 0
      then s\<lparr> jumpBufferCounter := toDouble (jumpBufferCounter s - delta f) \<rparr>
      else if isDownKeyDown f \<and> \<not> touchingGround f
      then (setVelocityY 500 s)\<lparr> jumpDownActive := True \<rparr>
      else s)"

text \<open>
  The vertical bounds check (lines 843--850). The first test may move the player to the
  top edge, and the second test reads the moved position.
\<close>

definition boundsCheck :: "frame \<Rightarrow> scene \<Rightarrow> scene" where
  "boundsCheck f s =
     (let clamped = playerY f < - playerHeight f;
          y1 = (if clamped then - playerHeight f else playerY f);
          s1 = (if clamped then setVelocityY 0 s else s)
      in if y1 > sceneHeight f + playerHeight f then endGame s1 else s1)"

text \<open>
  \<open>update\<close> (lines 723--877). Scrolling of the backgrounds, animation, movement and
  despawning of the pooled entities and the power-up display do not write any field of
  the record and are left out.
\<close>

definition update :: "frame \<Rightarrow> scene \<Rightarrow> scene" where
  "update f s =
     (if gameOver s then s
      else if \<not> bodyPresent f then s
      else increaseDifficulty (delta f / 1000)
             (boundsCheck f (jumpDownLogic f (jumpLogic f (landingLogic f s)))))"

text \<open>
  \<open>handleJumpInput\<close> (lines 946--987), the \<open>pointerdown\<close> handler. \<open>touchingDown\<close> is
  \<open>player.body.touching.down\<close> when the pointer event arrives.
\<close>

definition handleJumpInput :: "assets \<Rightarrow> bool \<Rightarrow> bool \<Rightarrow> scene \<Rightarrow> scene" where
  "handleJumpInput a touchingDown fadeRunning s =
     (if gameOver s then restartGame a fadeRunning s
      else if touchingDown \<and> jumpBufferCounter s > 0
      then (groundJump s)\<lparr> hasDoubleJumped := False \<rparr>
      else if touchingDown \<or> coyoteTimeCounter s > 0 then groundJump s
      else if \<not> touchingDown \<and> \<not> hasDoubleJumped s then doubleJump s
      else if \<not> touchingDown \<and> \<not> gameOver s
      then s\<lparr> jumpBufferCounter := jumpBufferDuration \<rparr>
      else s)"

subsection \<open>The scene as a machine driven by its callbacks\<close>

text \<open>
  Everything the engine can call on a created scene: the frame update, the pointer and
  restart key listeners, the overlap and collider callbacks of the physics world, and
  the two one-shot timers whose callbacks write the record. A timer fires only while it
  is pending.
\<close>

datatype event =
    Update frame
  | PointerDown bool bool
  | KeydownSpace bool
  | CoinOverlap bool real powerUpType
  | EnemyCollide
  | PitOverlap bool real real
  | PowerUpTimerFires
  | ComboTimerFires

fun step :: "assets \<Rightarrow> event \<Rightarrow> scene \<Rightarrow> scene" where
  "step a (Update f) s = update f s"
| "step a (PointerDown touchingDown fadeRunning) s = handleJumpInput a touchingDown fadeRunning s"
| "step a (KeydownSpace fadeRunning) s = restartGame a fadeRunning s"
| "step a (CoinOverlap coinActive now pick) s = collectCoin coinActive now pick s"
| "step a EnemyCollide s = enemyCollider s"
| "step a (PitOverlap touchingDown playerBottom pitTop) s =
     playerFellInPit touchingDown playerBottom pitTop s"
| "step a PowerUpTimerFires s = (if powerUpTimer s \<noteq> None then endPowerUp s else s)"
| "step a ComboTimerFires s = (if comboTimer s \<noteq> None then comboExpired s else s)"

fun run :: "assets \<Rightarrow> scene \<Rightarrow> event list \<Rightarrow> scene" where
  "run a s [] = s"
| "run a s (e # es) = run a (step a e s) es"

text \<open>The scenes passed through, the starting one first.\<close>

fun trace :: "assets \<Rightarrow> scene \<Rightarrow> event list \<Rightarrow> scene list" where
  "trace a s [] = [s]"
| "trace a s (e # es) = s # trace a (step a e s) es"

text \<open>The scene right after the first \<open>create\<close>.\<close>

definition initialScene :: "assets \<Rightarrow> scene" where
  "initialScene a = create a constructor"

text \<open>
  An event restarts the scene when it reaches \<open>restartGame\<close> after game over with no
  fade running. A single run is a sequence of events none of which restarts.
\<close>

fun restarts :: "event \<Rightarrow> scene \<Rightarrow> bool" where
  "restarts (PointerDown touchingDown fadeRunning) s = (gameOver s \<and> \<not> fadeRunning)"
| "restarts (KeydownSpace fadeRunning) s = (gameOver s \<and> \<not> fadeRunning)"
| "restarts e s = False"

fun singleRun :: "assets \<Rightarrow> scene \<Rightarrow> event list \<Rightarrow> bool" where
  "singleRun a s [] = True"
| "singleRun a s (e # es) = (\<not> restarts e s \<and> singleRun a (step a e s) es)"

text \<open>The frame delta of an event, for the events that carry one.\<close>

fun nonNegativeDelta :: "event \<Rightarrow> bool" where
  "nonNegativeDelta (Update f) = (0 \<le> delta f)"
| "nonNegativeDelta e = True"

section \<open>Notions used to state the properties\<close>

text \<open>A sample of loaded assets, used for the concrete runs below.\<close>

definition sampleAssets :: assets where
  "sampleAssets = \<lparr> spriteWidth = 120, spriteHeight = 240, hasPlayerSheet = True \<rparr>"

text \<open>
  A frame of a 600 pixel high scene in which the player, 48 pixels high, is inside the
  vertical bounds.
\<close>

definition frameAt :: "real \<Rightarrow> bool \<Rightarrow> bool \<Rightarrow> bool \<Rightarrow> frame" where
  "frameAt d jump down grounded =
     \<lparr> delta = d, isJumpKeyDown = jump, isDownKeyDown = down, touchingGround = grounded,
       bodyPresent = True, playerY = 400, playerHeight = 48, sceneHeight = 600 \<rparr>"

text \<open>The bounds check of a frame ends the run: the player is below the bottom edge.\<close>

definition fellOut :: "frame \<Rightarrow> bool" where
  "fellOut f =
     ((if playerY f < - playerHeight f then - playerHeight f else playerY f)
        > sceneHeight f + playerHeight f)"

text \<open>
  An event is a tick when it is a frame update that gets past the guard on the player's
  body. The three spawn timers follow the spawn delay, the pit timer by one rule before
  the first tick of a run and by another from then on.
\<close>

fun ticks :: "event \<Rightarrow> bool" where
  "ticks (Update f) = bodyPresent f"
| "ticks e = False"

definition cadences :: "bool \<Rightarrow> scene \<Rightarrow> bool" where
  "cadences ticked s =
     (coinSpawnTimer s = Some (spawnDelay s * (11 / 10))
      \<and> enemySpawnTimer s = Some (spawnDelay s)
      \<and> gapSpawnTimer s
          = Some (if ticked then max (spawnDelay s * (18 / 10)) (minSpawnDelay * (25 / 10))
                  else spawnDelay s * 2))"

text \<open>
  The power-up fields agree with one another: a power-up is active exactly when its type
  is set, and a duration timer is pending only while a power-up is active.
\<close>

definition powerUpConsistent :: "scene \<Rightarrow> bool" where
  "powerUpConsistent s =
     ((powerUpActive s \<longleftrightarrow> activePowerUpType s \<noteq> None)
      \<and> (powerUpTimer s \<noteq> None \<longrightarrow> powerUpActive s))"







section \<open>Basic facts about the handlers\<close>

lemmas constants =
  coyoteTimeDuration_def jumpBufferDuration_def baseScrollSpeed_def maxScrollSpeed_def
  speedIncreaseFactor_def baseSpawnDelay_def minSpawnDelay_def spawnDecreaseFactor_def
  powerUpDuration_def powerUpSpeedBoost_def comboTimeWindow_def baseScore_def

lemma run_append: "run a s (xs @ ys) = run a (run a s xs) ys"
  by (induction xs arbitrary: s) simp_all

lemma run_snoc: "run a s (xs @ [e]) = step a e (run a s xs)"
  by (simp add: run_append)

lemma initialScene_fields:
  "gameOver (initialScene a) = False"
  "powerUpActive (initialScene a) = False"
  "activePowerUpType (initialScene a) = None"
  "powerUpTimer (initialScene a) = None"
  "coinsCollectedForPowerUp (initialScene a) = 0"
  "scrollSpeed (initialScene a) = 250"
  "spawnDelay (initialScene a) = 1700"
  "comboCount (initialScene a) = 0"
  "scoreMultiplier (initialScene a) = 1"
  "lastCoinCollectTime (initialScene a) = 0"
  "score (initialScene a) = 0"
  by (simp_all add: initialScene_def create_def cleanupTimers_def startSpawning_def
        constructor_def constants Let_def)

lemma endGame_gameOver: "gameOver (endGame s)"
  by (simp add: endGame_def cleanupTimers_def Let_def)

lemma enemyCollider_powerUpActive: "powerUpActive s \<Longrightarrow> enemyCollider s = s"
  by (simp add: enemyCollider_def processCallback_def)

text \<open>
  Called directly, \<open>hitEnemy\<close> does let an active shield absorb the hit: the power-up ends,
  its timer is removed and the run goes on.
\<close>

lemma hitEnemy_shield:
  "\<not> gameOver s \<Longrightarrow> powerUpActive s \<Longrightarrow> activePowerUpType s = Some Shield \<Longrightarrow>
     hitEnemy s = s\<lparr> powerUpActive := False, activePowerUpType := None, powerUpTimer := None \<rparr>"
  by (simp add: hitEnemy_def)

lemma hitEnemy_unshielded:
  "\<not> gameOver s \<Longrightarrow> \<not> powerUpActive s \<Longrightarrow> gameOver (hitEnemy s)"
  by (simp add: hitEnemy_def endGame_gameOver)

lemma collectCoin_comboCount:
  "comboCount (collectCoin True now pick s)
     = (if now - lastCoinCollectTime s < 1500 then comboCount s + 1 else 1)"
  by (simp add: collectCoin_def triggerPowerUp_def constants Let_def)

lemma collectCoin_scoreMultiplier:
  "scoreMultiplier (collectCoin True now pick s)
     = (if now - lastCoinCollectTime s < 1500
        then (if comboCount s + 1 \<ge> 8 then 4 else if comboCount s + 1 \<ge> 5 then 3
              else if comboCount s + 1 \<ge> 3 then 2 else 1)
        else 1)"
  by (simp add: collectCoin_def triggerPowerUp_def constants Let_def)

lemma collectCoin_score:
  "score (collectCoin True now pick s)
     = score s + 10 * scoreMultiplier (collectCoin True now pick s)"
  by (simp add: collectCoin_def triggerPowerUp_def constants Let_def)

lemma collectCoin_lastCoinCollectTime:
  "lastCoinCollectTime (collectCoin True now pick s) = now"
  by (simp add: collectCoin_def triggerPowerUp_def constants Let_def)

lemma collectCoin_powerUp:
  "powerUpActive (collectCoin True now pick s)
     = (powerUpActive s \<or> coinsCollectedForPowerUp s + 1 \<ge> 20)"
  "activePowerUpType (collectCoin True now pick s)
     = (if \<not> powerUpActive s \<and> coinsCollectedForPowerUp s + 1 \<ge> 20
        then Some pick else activePowerUpType s)"
  "powerUpTimer (collectCoin True now pick s)
     = (if \<not> powerUpActive s \<and> coinsCollectedForPowerUp s + 1 \<ge> 20
        then Some powerUpDuration else powerUpTimer s)"
  "coinsCollectedForPowerUp (collectCoin True now pick s)
     = (if \<not> powerUpActive s \<and> coinsCollectedForPowerUp s + 1 \<ge> 20
        then 0 else coinsCollectedForPowerUp s + 1)"
  by (simp_all add: collectCoin_def triggerPowerUp_def Let_def)

lemma collectCoin_gameOver: "gameOver (collectCoin c now pick s) = gameOver s"
  by (simp add: collectCoin_def triggerPowerUp_def Let_def)

text \<open>Pickups below the threshold of twenty only count.\<close>

lemma pickups_before_trigger:
  "\<not> powerUpActive s \<Longrightarrow> coinsCollectedForPowerUp s + int n < 20 \<Longrightarrow>
     \<not> powerUpActive (run a s (replicate n (CoinOverlap True now pick)))
     \<and> coinsCollectedForPowerUp (run a s (replicate n (CoinOverlap True now pick)))
         = coinsCollectedForPowerUp s + int n
     \<and> gameOver (run a s (replicate n (CoinOverlap True now pick))) = gameOver s"
proof (induction n arbitrary: s)
  case 0
  then show ?case by simp
next
  case (Suc n)
  let ?s1 = "collectCoin True now pick s"
  have "\<not> powerUpActive ?s1" and "coinsCollectedForPowerUp ?s1 = coinsCollectedForPowerUp s + 1"
    using Suc.prems by (simp_all add: collectCoin_powerUp)
  moreover from this Suc.prems have "coinsCollectedForPowerUp ?s1 + int n < 20" by simp
  ultimately show ?case
    using Suc.IH [of ?s1] by (simp add: collectCoin_gameOver)
qed

lemma boundsCheck_alt:
  "boundsCheck f s =
     (let s1 = (if playerY f < - playerHeight f then setVelocityY 0 s else s)
      in if fellOut f then endGame s1 else s1)"
  by (simp add: boundsCheck_def fellOut_def Let_def)

lemma landingLogic_keeps:
  "gameOver (landingLogic f s) = gameOver s"
  "scrollSpeed (landingLogic f s) = scrollSpeed s"
  "spawnDelay (landingLogic f s) = spawnDelay s"
  "coinSpawnTimer (landingLogic f s) = coinSpawnTimer s"
  "enemySpawnTimer (landingLogic f s) = enemySpawnTimer s"
  "gapSpawnTimer (landingLogic f s) = gapSpawnTimer s"
  "powerUpActive (landingLogic f s) = powerUpActive s"
  "activePowerUpType (landingLogic f s) = activePowerUpType s"
  "powerUpTimer (landingLogic f s) = powerUpTimer s"
  "coinsCollectedForPowerUp (landingLogic f s) = coinsCollectedForPowerUp s"
  by (simp_all add: landingLogic_def groundJump_def setVelocityY_def Let_def)

lemma jumpLogic_keeps:
  "gameOver (jumpLogic f s) = gameOver s"
  "scrollSpeed (jumpLogic f s) = scrollSpeed s"
  "spawnDelay (jumpLogic f s) = spawnDelay s"
  "coinSpawnTimer (jumpLogic f s) = coinSpawnTimer s"
  "enemySpawnTimer (jumpLogic f s) = enemySpawnTimer s"
  "gapSpawnTimer (jumpLogic f s) = gapSpawnTimer s"
  "powerUpActive (jumpLogic f s) = powerUpActive s"
  "activePowerUpType (jumpLogic f s) = activePowerUpType s"
  "powerUpTimer (jumpLogic f s) = powerUpTimer s"
  "coinsCollectedForPowerUp (jumpLogic f s) = coinsCollectedForPowerUp s"
  by (simp_all add: jumpLogic_def groundJump_def doubleJump_def setVelocityY_def)

lemma jumpDownLogic_keeps:
  "gameOver (jumpDownLogic f s) = gameOver s"
  "scrollSpeed (jumpDownLogic f s) = scrollSpeed s"
  "spawnDelay (jumpDownLogic f s) = spawnDelay s"
  "coinSpawnTimer (jumpDownLogic f s) = coinSpawnTimer s"
  "enemySpawnTimer (jumpDownLogic f s) = enemySpawnTimer s"
  "gapSpawnTimer (jumpDownLogic f s) = gapSpawnTimer s"
  "powerUpActive (jumpDownLogic f s) = powerUpActive s"
  "activePowerUpType (jumpDownLogic f s) = activePowerUpType s"
  "powerUpTimer (jumpDownLogic f s) = powerUpTimer s"
  "coinsCollectedForPowerUp (jumpDownLogic f s) = coinsCollectedForPowerUp s"
  by (simp_all add: jumpDownLogic_def setVelocityY_def)

lemma setVelocityY_keeps:
  "gameOver (setVelocityY v s) = gameOver s"
  "scrollSpeed (setVelocityY v s) = scrollSpeed s"
  "spawnDelay (setVelocityY v s) = spawnDelay s"
  "coinSpawnTimer (setVelocityY v s) = coinSpawnTimer s"
  "enemySpawnTimer (setVelocityY v s) = enemySpawnTimer s"
  "gapSpawnTimer (setVelocityY v s) = gapSpawnTimer s"
  "powerUpActive (setVelocityY v s) = powerUpActive s"
  "activePowerUpType (setVelocityY v s) = activePowerUpType s"
  "powerUpTimer (setVelocityY v s) = powerUpTimer s"
  "coinsCollectedForPowerUp (setVelocityY v s) = coinsCollectedForPowerUp s"
  by (simp_all add: setVelocityY_def)

lemma endGame_fields:
  "scrollSpeed (endGame s) = scrollSpeed s"
  "spawnDelay (endGame s) = spawnDelay s"
  "powerUpActive (endGame s) = (gameOver s \<and> powerUpActive s)"
  "activePowerUpType (endGame s)
     = (if \<not> gameOver s \<and> powerUpActive s then None else activePowerUpType s)"
  "powerUpTimer (endGame s) = (if gameOver s then powerUpTimer s else None)"
  "coinsCollectedForPowerUp (endGame s) = coinsCollectedForPowerUp s"
  by (simp_all add: endGame_def cleanupTimers_def Let_def)

lemma endGame_idle: "gameOver s \<Longrightarrow> endGame s = s"
  by (simp add: endGame_def)

lemma boundsCheck_keeps:
  "scrollSpeed (boundsCheck f s) = scrollSpeed s"
  "spawnDelay (boundsCheck f s) = spawnDelay s"
  "coinsCollectedForPowerUp (boundsCheck f s) = coinsCollectedForPowerUp s"
  "gameOver (boundsCheck f s) = (gameOver s \<or> fellOut f)"
  by (simp_all add: boundsCheck_alt Let_def endGame_fields endGame_gameOver setVelocityY_keeps)

lemma boundsCheck_stays:
  "\<not> fellOut f \<Longrightarrow> coinSpawnTimer (boundsCheck f s) = coinSpawnTimer s"
  "\<not> fellOut f \<Longrightarrow> enemySpawnTimer (boundsCheck f s) = enemySpawnTimer s"
  "\<not> fellOut f \<Longrightarrow> gapSpawnTimer (boundsCheck f s) = gapSpawnTimer s"
  "\<not> fellOut f \<Longrightarrow> powerUpActive (boundsCheck f s) = powerUpActive s"
  "\<not> fellOut f \<Longrightarrow> activePowerUpType (boundsCheck f s) = activePowerUpType s"
  "\<not> fellOut f \<Longrightarrow> powerUpTimer (boundsCheck f s) = powerUpTimer s"
  by (simp_all add: boundsCheck_alt Let_def setVelocityY_keeps)

lemma boundsCheck_powerUp:
  "\<not> gameOver s \<Longrightarrow> fellOut f \<Longrightarrow> \<not> powerUpActive (boundsCheck f s)"
  "\<not> gameOver s \<Longrightarrow> fellOut f \<Longrightarrow> powerUpTimer (boundsCheck f s) = None"
  "\<not> gameOver s \<Longrightarrow> fellOut f \<Longrightarrow> powerUpActive s \<Longrightarrow> activePowerUpType (boundsCheck f s) = None"
  "\<not> gameOver s \<Longrightarrow> fellOut f \<Longrightarrow> \<not> powerUpActive s \<Longrightarrow>
     activePowerUpType (boundsCheck f s) = activePowerUpType s"
  by (simp_all add: boundsCheck_alt Let_def endGame_fields setVelocityY_keeps)

lemma increaseDifficulty_fields:
  "gameOver (increaseDifficulty d s) = gameOver s"
  "scrollSpeed (increaseDifficulty d s) = min (scrollSpeed s + 6 * d) 750"
  "spawnDelay (increaseDifficulty d s) = max (spawnDelay s - 18 * d) 400"
  "powerUpActive (increaseDifficulty d s) = powerUpActive s"
  "activePowerUpType (increaseDifficulty d s) = activePowerUpType s"
  "powerUpTimer (increaseDifficulty d s) = powerUpTimer s"
  "coinsCollectedForPowerUp (increaseDifficulty d s) = coinsCollectedForPowerUp s"
  by (simp_all add: increaseDifficulty_def constants Let_def)

lemma increaseDifficulty_timers:
  "coinSpawnTimer (increaseDifficulty d s)
     = (if coinSpawnTimer s \<noteq> None
        then Some (spawnDelay (increaseDifficulty d s) * (11 / 10)) else None)"
  "enemySpawnTimer (increaseDifficulty d s)
     = (if enemySpawnTimer s \<noteq> None
        then Some (spawnDelay (increaseDifficulty d s)) else None)"
  "gapSpawnTimer (increaseDifficulty d s)
     = (if gapSpawnTimer s \<noteq> None
        then Some (max (spawnDelay (increaseDifficulty d s) * (18 / 10)) 1000) else None)"
  by (auto simp add: increaseDifficulty_def constants Let_def)


lemma endGame_timers:
  "coinSpawnTimer (endGame s) = (if gameOver s then coinSpawnTimer s else None)"
  "enemySpawnTimer (endGame s) = (if gameOver s then enemySpawnTimer s else None)"
  "gapSpawnTimer (endGame s) = (if gameOver s then gapSpawnTimer s else None)"
  by (simp_all add: endGame_def cleanupTimers_def Let_def)

lemma update_idle: "gameOver s \<or> \<not> bodyPresent f \<Longrightarrow> update f s = s"
  by (auto simp add: update_def)

lemma update_speed:
  "\<not> gameOver s \<Longrightarrow> bodyPresent f \<Longrightarrow>
     scrollSpeed (update f s) = min (scrollSpeed s + 6 * (delta f / 1000)) 750"
  "\<not> gameOver s \<Longrightarrow> bodyPresent f \<Longrightarrow>
     spawnDelay (update f s) = max (spawnDelay s - 18 * (delta f / 1000)) 400"
  by (simp_all add: update_def increaseDifficulty_fields boundsCheck_keeps
        jumpDownLogic_keeps jumpLogic_keeps landingLogic_keeps)

lemma update_gameOver:
  "gameOver (update f s) = (gameOver s \<or> bodyPresent f \<and> fellOut f)"
  by (simp add: update_def increaseDifficulty_fields boundsCheck_keeps
        jumpDownLogic_keeps jumpLogic_keeps landingLogic_keeps)

lemma create_fields:
  "score (create a s) = 0"
  "gameOver (create a s) = False"
  "scrollSpeed (create a s) = 250"
  "spawnDelay (create a s) = 1700"
  "powerUpActive (create a s) = False"
  "activePowerUpType (create a s) = None"
  "powerUpTimer (create a s) = None"
  "powerUpFlashEvent (create a s) = None"
  "comboTimer (create a s) = None"
  "coinsCollectedForPowerUp (create a s) = 0"
  "hasDoubleJumped (create a s) = False"
  "jumpDownActive (create a s) = False"
  "coyoteTimeCounter (create a s) = 0"
  "jumpBufferCounter (create a s) = 0"
  "wasInAir (create a s) = False"
  "velocityYCalls (create a s) = []"
  "coinSpawnTimer (create a s) = Some 1870"
  "enemySpawnTimer (create a s) = Some 1700"
  "gapSpawnTimer (create a s) = Some 3400"
  "highScore (create a s) = highScore s"
  "comboCount (create a s) = comboCount s"
  "scoreMultiplier (create a s) = scoreMultiplier s"
  "lastCoinCollectTime (create a s) = lastCoinCollectTime s"
  by (simp_all add: create_def cleanupTimers_def startSpawning_def constants Let_def
        split: option.split)

lemma restartGame_idle: "\<not> gameOver s \<or> fadeRunning \<Longrightarrow> restartGame a fadeRunning s = s"
  by (auto simp add: restartGame_def)

lemma restartGame_create:
  "gameOver s \<Longrightarrow>
     restartGame a False s
       = create a (cleanupTimers s
           \<lparr> playerScaleData :=
                Some \<lparr> sdScaleX = playerScaleX s, sdScaleY = playerScaleY s,
                       sdOriginalWidth = playerOriginalWidth s,
                       sdOriginalHeight = playerOriginalHeight s \<rparr> \<rparr>)"
  by (simp add: restartGame_def cleanupTimers_def Let_def)

lemma restartGame_speed:
  "scrollSpeed (restartGame a fadeRunning s)
     = (if gameOver s \<and> \<not> fadeRunning then 250 else scrollSpeed s)"
  "spawnDelay (restartGame a fadeRunning s)
     = (if gameOver s \<and> \<not> fadeRunning then 1700 else spawnDelay s)"
  by (cases fadeRunning; simp add: restartGame_idle restartGame_create create_fields)+

lemma handleJumpInput_running:
  "\<not> gameOver s \<Longrightarrow> gameOver (handleJumpInput a t fd s) = gameOver s"
  "\<not> gameOver s \<Longrightarrow> scrollSpeed (handleJumpInput a t fd s) = scrollSpeed s"
  "\<not> gameOver s \<Longrightarrow> spawnDelay (handleJumpInput a t fd s) = spawnDelay s"
  "\<not> gameOver s \<Longrightarrow> coinSpawnTimer (handleJumpInput a t fd s) = coinSpawnTimer s"
  "\<not> gameOver s \<Longrightarrow> enemySpawnTimer (handleJumpInput a t fd s) = enemySpawnTimer s"
  "\<not> gameOver s \<Longrightarrow> gapSpawnTimer (handleJumpInput a t fd s) = gapSpawnTimer s"
  "\<not> gameOver s \<Longrightarrow> powerUpActive (handleJumpInput a t fd s) = powerUpActive s"
  "\<not> gameOver s \<Longrightarrow> activePowerUpType (handleJumpInput a t fd s) = activePowerUpType s"
  "\<not> gameOver s \<Longrightarrow> powerUpTimer (handleJumpInput a t fd s) = powerUpTimer s"
  "\<not> gameOver s \<Longrightarrow>
     coinsCollectedForPowerUp (handleJumpInput a t fd s) = coinsCollectedForPowerUp s"
  by (simp_all add: handleJumpInput_def groundJump_def doubleJump_def setVelocityY_def)

lemma handleJumpInput_gameOver:
  "gameOver s \<Longrightarrow> handleJumpInput a t fd s = restartGame a fd s"
  by (simp add: handleJumpInput_def)

lemma collectCoin_keeps:
  "scrollSpeed (collectCoin c now pick s) = scrollSpeed s"
  "spawnDelay (collectCoin c now pick s) = spawnDelay s"
  "coinSpawnTimer (collectCoin c now pick s) = coinSpawnTimer s"
  "enemySpawnTimer (collectCoin c now pick s) = enemySpawnTimer s"
  "gapSpawnTimer (collectCoin c now pick s) = gapSpawnTimer s"
  by (simp_all add: collectCoin_def triggerPowerUp_def Let_def)

lemma enemyCollider_alt:
  "enemyCollider s = (if powerUpActive s \<or> gameOver s then s else endGame s)"
  by (simp add: enemyCollider_def processCallback_def hitEnemy_def)

lemma playerFellInPit_alt:
  "playerFellInPit t b p s
     = (if \<not> gameOver s \<and> t \<and> b \<ge> p + 5 then endGame s else s)"
  by (simp add: playerFellInPit_def)

lemma endPowerUp_fields:
  "gameOver (endPowerUp s) = gameOver s"
  "scrollSpeed (endPowerUp s) = scrollSpeed s"
  "spawnDelay (endPowerUp s) = spawnDelay s"
  "coinSpawnTimer (endPowerUp s) = coinSpawnTimer s"
  "enemySpawnTimer (endPowerUp s) = enemySpawnTimer s"
  "gapSpawnTimer (endPowerUp s) = gapSpawnTimer s"
  "powerUpActive (endPowerUp s) = False"
  "activePowerUpType (endPowerUp s) = None"
  "powerUpTimer (endPowerUp s) = None"
  "coinsCollectedForPowerUp (endPowerUp s) = coinsCollectedForPowerUp s"
  by (simp_all add: endPowerUp_def)

lemma comboExpired_keeps:
  "gameOver (comboExpired s) = gameOver s"
  "scrollSpeed (comboExpired s) = scrollSpeed s"
  "spawnDelay (comboExpired s) = spawnDelay s"
  "coinSpawnTimer (comboExpired s) = coinSpawnTimer s"
  "enemySpawnTimer (comboExpired s) = enemySpawnTimer s"
  "gapSpawnTimer (comboExpired s) = gapSpawnTimer s"
  "powerUpActive (comboExpired s) = powerUpActive s"
  "activePowerUpType (comboExpired s) = activePowerUpType s"
  "powerUpTimer (comboExpired s) = powerUpTimer s"
  "coinsCollectedForPowerUp (comboExpired s) = coinsCollectedForPowerUp s"
  by (simp_all add: comboExpired_def)

text \<open>Every callback keeps the two difficulty values inside their bounds.\<close>

lemma step_bounds:
  assumes "scrollSpeed s \<le> 750" and "400 \<le> spawnDelay s"
  shows "scrollSpeed (step a e s) \<le> 750 \<and> 400 \<le> spawnDelay (step a e s)"
proof (cases e)
  case (Update f)
  then show ?thesis
    using assms by (cases "gameOver s \<or> \<not> bodyPresent f") (auto simp add: update_idle update_speed)
next
  case (PointerDown t fd)
  then show ?thesis
    using assms
    by (cases "gameOver s")
      (simp_all add: handleJumpInput_gameOver restartGame_speed handleJumpInput_running)
next
  case (KeydownSpace fd)
  then show ?thesis using assms by (simp add: restartGame_speed)
next
  case (CoinOverlap c now pick)
  then show ?thesis using assms by (simp add: collectCoin_keeps)
next
  case EnemyCollide
  then show ?thesis using assms by (simp add: enemyCollider_alt endGame_fields)
next
  case (PitOverlap t b p)
  then show ?thesis using assms by (simp add: playerFellInPit_alt endGame_fields)
next
  case PowerUpTimerFires
  then show ?thesis using assms by (simp add: endPowerUp_fields)
next
  case ComboTimerFires
  then show ?thesis using assms by (simp add: comboExpired_keeps)
qed

text \<open>Within a run no callback lowers the scroll speed or raises the spawn delay.\<close>

lemma step_monotone:
  assumes "\<not> restarts e s" and "nonNegativeDelta e"
    and "scrollSpeed s \<le> 750" and "400 \<le> spawnDelay s"
  shows "scrollSpeed s \<le> scrollSpeed (step a e s) \<and> spawnDelay (step a e s) \<le> spawnDelay s"
proof (cases e)
  case (Update f)
  then show ?thesis
    using assms by (cases "gameOver s \<or> \<not> bodyPresent f") (auto simp add: update_idle update_speed)
next
  case (PointerDown t fd)
  then show ?thesis
    using assms
    by (cases "gameOver s")
      (simp_all add: handleJumpInput_gameOver restartGame_idle handleJumpInput_running)
next
  case (KeydownSpace fd)
  then show ?thesis using assms by (auto simp add: restartGame_idle)
next
  case (CoinOverlap c now pick)
  then show ?thesis by (simp add: collectCoin_keeps)
next
  case EnemyCollide
  then show ?thesis by (simp add: enemyCollider_alt endGame_fields)
next
  case (PitOverlap t b p)
  then show ?thesis by (simp add: playerFellInPit_alt endGame_fields)
next
  case PowerUpTimerFires
  then show ?thesis by (simp add: endPowerUp_fields)
next
  case ComboTimerFires
  then show ?thesis by (simp add: comboExpired_keeps)
qed

lemma trace_bounds:
  "scrollSpeed s \<le> 750 \<Longrightarrow> 400 \<le> spawnDelay s \<Longrightarrow>
     \<forall>t \<in> set (trace a s es). scrollSpeed t \<le> 750 \<and> 400 \<le> spawnDelay t"
proof (induction es arbitrary: s)
  case Nil
  then show ?case by simp
next
  case (Cons e es)
  from step_bounds [OF Cons.prems, of a e] Cons.IH [of "step a e s"] Cons.prems
  show ?case by simp
qed

lemma trace_from_start:
  assumes "\<forall>e \<in> set es. nonNegativeDelta e" and "singleRun a s es"
    and "scrollSpeed s \<le> 750" and "400 \<le> spawnDelay s"
  shows "\<forall>t \<in> set (trace a s es). scrollSpeed s \<le> scrollSpeed t \<and> spawnDelay t \<le> spawnDelay s"
  using assms
proof (induction es arbitrary: s)
  case Nil
  then show ?case by simp
next
  case (Cons e es)
  let ?s1 = "step a e s"
  have mono: "scrollSpeed s \<le> scrollSpeed ?s1 \<and> spawnDelay ?s1 \<le> spawnDelay s"
    using Cons.prems by (intro step_monotone) simp_all
  have bnd: "scrollSpeed ?s1 \<le> 750 \<and> 400 \<le> spawnDelay ?s1"
    using Cons.prems by (intro step_bounds) simp_all
  have "\<forall>t \<in> set (trace a ?s1 es).
          scrollSpeed ?s1 \<le> scrollSpeed t \<and> spawnDelay t \<le> spawnDelay ?s1"
    using Cons.prems bnd by (intro Cons.IH) simp_all
  with mono show ?case by fastforce
qed

lemma trace_sorted:
  assumes "\<forall>e \<in> set es. nonNegativeDelta e" and "singleRun a s es"
    and "scrollSpeed s \<le> 750" and "400 \<le> spawnDelay s"
  shows "sorted_wrt (\<le>) (map scrollSpeed (trace a s es))
         \<and> sorted_wrt (\<ge>) (map spawnDelay (trace a s es))"
  using assms
proof (induction es arbitrary: s)
  case Nil
  then show ?case by simp
next
  case (Cons e es)
  let ?s1 = "step a e s"
  have bnd: "scrollSpeed ?s1 \<le> 750 \<and> 400 \<le> spawnDelay ?s1"
    using Cons.prems by (intro step_bounds) simp_all
  have rest: "sorted_wrt (\<le>) (map scrollSpeed (trace a ?s1 es))
              \<and> sorted_wrt (\<ge>) (map spawnDelay (trace a ?s1 es))"
    using Cons.prems bnd by (intro Cons.IH) simp_all
  have "\<forall>t \<in> set (trace a s (e # es)).
          scrollSpeed s \<le> scrollSpeed t \<and> spawnDelay t \<le> spawnDelay s"
    using Cons.prems by (intro trace_from_start) simp_all
  with rest show ?case by simp
qed

lemma frameAt_fields:
  "delta (frameAt d j dn g) = d"
  "isJumpKeyDown (frameAt d j dn g) = j"
  "isDownKeyDown (frameAt d j dn g) = dn"
  "touchingGround (frameAt d j dn g) = g"
  "bodyPresent (frameAt d j dn g)"
  "\<not> fellOut (frameAt d j dn g)"
  "\<not> playerY (frameAt d j dn g) < - playerHeight (frameAt d j dn g)"
  by (simp_all add: frameAt_def fellOut_def)

lemma gameOver_sticky:
  assumes "\<not> restarts e s" and "gameOver s"
  shows "gameOver (step a e s)"
proof (cases e)
  case (Update f)
  then show ?thesis using assms by (simp add: update_idle)
next
  case (PointerDown t fd)
  then show ?thesis using assms by (simp add: handleJumpInput_gameOver restartGame_idle)
next
  case (KeydownSpace fd)
  then show ?thesis using assms by (simp add: restartGame_idle)
next
  case (CoinOverlap c now pick)
  then show ?thesis using assms by (simp add: collectCoin_gameOver)
next
  case EnemyCollide
  then show ?thesis using assms by (simp add: enemyCollider_alt)
next
  case (PitOverlap t b p)
  then show ?thesis using assms by (simp add: playerFellInPit_alt)
next
  case PowerUpTimerFires
  then show ?thesis using assms by (simp add: endPowerUp_fields)
next
  case ComboTimerFires
  then show ?thesis using assms by (simp add: comboExpired_keeps)
qed

lemma update_cadences:
  assumes "\<not> gameOver s" and "cadences k s" and "\<not> gameOver (update f s)"
  shows "cadences (k \<or> bodyPresent f) (update f s)"
proof (cases "bodyPresent f")
  case False
  then show ?thesis using assms by (simp add: update_idle)
next
  case True
  let ?m = "boundsCheck f (jumpDownLogic f (jumpLogic f (landingLogic f s)))"
  have upd: "update f s = increaseDifficulty (delta f / 1000) ?m"
    using True assms(1) by (simp add: update_def)
  have nf: "\<not> fellOut f"
    using assms(3) True by (simp add: update_gameOver)
  have "coinSpawnTimer ?m = coinSpawnTimer s" "enemySpawnTimer ?m = enemySpawnTimer s"
    "gapSpawnTimer ?m = gapSpawnTimer s"
    using nf by (simp_all add: boundsCheck_stays jumpDownLogic_keeps jumpLogic_keeps
        landingLogic_keeps)
  then show ?thesis
    using assms(2) True
    by (simp add: upd cadences_def increaseDifficulty_timers minSpawnDelay_def)
qed

lemma step_cadences:
  assumes "\<not> restarts e s" and "\<not> gameOver s \<longrightarrow> cadences k s"
    and "\<not> gameOver (step a e s)"
  shows "cadences (k \<or> ticks e) (step a e s)"
proof -
  have run: "\<not> gameOver s"
    using gameOver_sticky [OF assms(1), of a] assms(3) by blast
  with assms(2) have c: "cadences k s" by simp
  show ?thesis
  proof (cases e)
    case (Update f)
    then show ?thesis using update_cadences [OF run c, of f] assms(3) by simp
  next
    case (PointerDown t fd)
    then show ?thesis using run c by (simp add: cadences_def handleJumpInput_running)
  next
    case (KeydownSpace fd)
    then show ?thesis using run c by (simp add: restartGame_idle)
  next
    case (CoinOverlap cn now pick)
    then show ?thesis using c by (simp add: cadences_def collectCoin_keeps)
  next
    case EnemyCollide
    then show ?thesis using c assms(3) by (auto simp add: enemyCollider_alt endGame_gameOver)
  next
    case (PitOverlap t b p)
    then show ?thesis using c assms(3) by (auto simp add: playerFellInPit_alt endGame_gameOver)
  next
    case PowerUpTimerFires
    then show ?thesis using c by (simp add: cadences_def endPowerUp_fields)
  next
    case ComboTimerFires
    then show ?thesis using c by (simp add: cadences_def comboExpired_keeps)
  qed
qed

lemma run_cadences:
  assumes "singleRun a s es" and "\<not> gameOver s \<longrightarrow> cadences k s"
    and "\<not> gameOver (run a s es)"
  shows "cadences (k \<or> (\<exists>e \<in> set es. ticks e)) (run a s es)"
  using assms
proof (induction es arbitrary: s k)
  case Nil
  then show ?case by simp
next
  case (Cons e es)
  let ?s1 = "step a e s"
  have "\<not> gameOver ?s1 \<longrightarrow> cadences (k \<or> ticks e) ?s1"
    using Cons.prems by (auto intro: step_cadences)
  then have "cadences ((k \<or> ticks e) \<or> (\<exists>x \<in> set es. ticks x)) (run a ?s1 es)"
    using Cons.prems by (intro Cons.IH) simp_all
  then show ?case by simp
qed

lemma initialScene_cadences: "cadences False (initialScene a)"
  by (simp add: cadences_def initialScene_def create_fields)

lemma endGame_combo:
  "comboCount (endGame s) = comboCount s"
  "scoreMultiplier (endGame s) = scoreMultiplier s"
  "lastCoinCollectTime (endGame s) = lastCoinCollectTime s"
  "score (endGame s) = score s"
  by (simp_all add: endGame_def cleanupTimers_def Let_def)

lemma restartGame_fields:
  assumes "gameOver s"
  shows "score (restartGame a False s) = 0"
    and "\<not> gameOver (restartGame a False s)"
    and "scrollSpeed (restartGame a False s) = 250"
    and "spawnDelay (restartGame a False s) = 1700"
    and "\<not> powerUpActive (restartGame a False s)"
    and "activePowerUpType (restartGame a False s) = None"
    and "coinsCollectedForPowerUp (restartGame a False s) = 0"
    and "\<not> hasDoubleJumped (restartGame a False s)"
    and "\<not> jumpDownActive (restartGame a False s)"
    and "coyoteTimeCounter (restartGame a False s) = 0"
    and "jumpBufferCounter (restartGame a False s) = 0"
    and "highScore (restartGame a False s) = highScore s"
    and "playerScaleX (restartGame a False s) = playerScaleX s"
    and "playerScaleY (restartGame a False s) = playerScaleY s"
    and "playerOriginalWidth (restartGame a False s) = playerOriginalWidth s"
    and "playerOriginalHeight (restartGame a False s) = playerOriginalHeight s"
    and "comboCount (restartGame a False s) = comboCount s"
    and "scoreMultiplier (restartGame a False s) = scoreMultiplier s"
    and "lastCoinCollectTime (restartGame a False s) = lastCoinCollectTime s"
  using assms
  by (simp_all add: restartGame_def create_def cleanupTimers_def startSpawning_def
        constants Let_def)

lemma collectCoin_inactive: "collectCoin False now pick s = s"
  by (simp add: collectCoin_def)

lemma update_powerUpConsistent:
  assumes "powerUpConsistent s"
  shows "powerUpConsistent (update f s)"
proof (cases "gameOver s \<or> \<not> bodyPresent f")
  case True
  then show ?thesis using assms by (simp add: update_idle)
next
  case False
  let ?m = "jumpDownLogic f (jumpLogic f (landingLogic f s))"
  have m: "powerUpActive ?m = powerUpActive s" "activePowerUpType ?m = activePowerUpType s"
    "powerUpTimer ?m = powerUpTimer s" "\<not> gameOver ?m"
    using False by (simp_all add: jumpDownLogic_keeps jumpLogic_keeps landingLogic_keeps)
  have upd: "update f s = increaseDifficulty (delta f / 1000) (boundsCheck f ?m)"
    using False by (simp add: update_def)
  show ?thesis
  proof (cases "fellOut f")
    case True
    then show ?thesis
      using assms m boundsCheck_powerUp [of ?m f]
      by (cases "powerUpActive s")
        (auto simp add: upd powerUpConsistent_def increaseDifficulty_fields)
  next
    case False
    then show ?thesis
      using assms m
      by (auto simp add: upd powerUpConsistent_def increaseDifficulty_fields boundsCheck_stays)
  qed
qed

lemma endGame_powerUpConsistent: "powerUpConsistent s \<Longrightarrow> powerUpConsistent (endGame s)"
  by (auto simp add: powerUpConsistent_def endGame_fields)

lemma restartGame_powerUpConsistent:
  "powerUpConsistent s \<Longrightarrow> powerUpConsistent (restartGame a fd s)"
  by (cases "gameOver s \<and> \<not> fd")
    (auto simp add: restartGame_idle restartGame_create create_fields powerUpConsistent_def)

lemma step_powerUpConsistent:
  assumes "powerUpConsistent s"
  shows "powerUpConsistent (step a e s)"
proof (cases e)
  case (Update f)
  then show ?thesis using assms by (simp add: update_powerUpConsistent)
next
  case (PointerDown t fd)
  show ?thesis
  proof (cases "gameOver s")
    case True
    with PointerDown show ?thesis
      using restartGame_powerUpConsistent [OF assms, of a fd]
      by (simp add: handleJumpInput_gameOver)
  next
    case False
    with PointerDown show ?thesis
      using assms by (auto simp add: handleJumpInput_running powerUpConsistent_def)
  qed
next
  case (KeydownSpace fd)
  then show ?thesis using assms by (simp add: restartGame_powerUpConsistent)
next
  case (CoinOverlap c now pick)
  show ?thesis
  proof (cases c)
    case True
    with CoinOverlap show ?thesis
      using assms by (auto simp add: powerUpConsistent_def collectCoin_powerUp)
  next
    case False
    with CoinOverlap show ?thesis
      using assms by (simp add: collectCoin_inactive)
  qed
next
  case EnemyCollide
  then show ?thesis using assms by (simp add: enemyCollider_alt endGame_powerUpConsistent)
next
  case (PitOverlap t b p)
  then show ?thesis using assms by (simp add: playerFellInPit_alt endGame_powerUpConsistent)
next
  case PowerUpTimerFires
  then show ?thesis using assms by (auto simp add: powerUpConsistent_def endPowerUp_fields)
next
  case ComboTimerFires
  then show ?thesis using assms by (auto simp add: powerUpConsistent_def comboExpired_keeps)
qed

lemma run_powerUpConsistent:
  "powerUpConsistent s \<Longrightarrow> powerUpConsistent (run a s es)"
  by (induction es arbitrary: s) (simp_all add: step_powerUpConsistent)

lemma initialScene_powerUpConsistent: "powerUpConsistent (initialScene a)"
  by (simp add: powerUpConsistent_def initialScene_fields)

subsection \<open>Rounding to double precision\<close>


lemma roundTiesToEven_of_int: "roundTiesToEven (of_int m) = m"
  by (simp add: roundTiesToEven_def)

lemma ulp_pos: "0 < ulp x"
  by (simp add: ulp_def)




lemma toDouble_of_int:
  assumes "\<bar>n\<bar> < 2 ^ 53"
  shows "toDouble (of_int n) = of_int n"
proof (cases "n = 0")
  case True
  then show ?thesis by (simp add: toDouble_def)
next
  case False
  let ?e = "\<lfloor>log 2 \<bar>of_int n :: real\<bar>\<rfloor>"
  have ab: "\<bar>of_int n :: real\<bar> = of_int \<bar>n\<bar>"
    by simp
  have "1 \<le> \<bar>n\<bar>"
    using False by simp
  then have one: "1 \<le> \<bar>of_int n :: real\<bar>"
    unfolding ab by (simp only: of_int_1_le_iff)
  have "\<bar>of_int n :: real\<bar> < 2 ^ 53"
    unfolding ab using assms by (simp only: of_int_less_numeral_power_cancel_iff)
  then have "log 2 \<bar>of_int n :: real\<bar> < 53"
    using one by (simp add: log_less_iff)
  then have hi: "?e \<le> 52" by linarith
  have "0 \<le> log 2 \<bar>of_int n :: real\<bar>"
    using one by simp
  then have lo: "0 \<le> ?e" by simp
  obtain k :: nat where k: "52 - ?e = int k"
    using hi by (metis diff_ge_0_iff_ge nonneg_int_cases)
  have "max ?e (- 1022) = ?e" using lo by simp
  then have "ulp (of_int n) = 2 powr (of_int ?e - 52)"
    by (simp add: ulp_def)
  also have "of_int ?e - (52 :: real) = - of_int (52 - ?e)"
    by simp
  also have "2 powr (- of_int (52 - ?e)) = (1 / 2 ^ k :: real)"
    by (simp only: k) (simp add: powr_minus_divide powr_realpow)
  finally have u: "ulp (of_int n) = 1 / 2 ^ k" .
  have "of_int n / ulp (of_int n) = (of_int (n * 2 ^ k) :: real)"
    by (simp add: u)
  then have "roundTiesToEven (of_int n / ulp (of_int n)) = n * 2 ^ k"
    by (simp only: roundTiesToEven_of_int)
  then show ?thesis
    using False by (simp add: toDouble_def u)
qed

lemma toDouble_nonpos:
  assumes "x \<le> 0"
  shows "toDouble x \<le> 0"
proof (cases "x = 0")
  case True
  then show ?thesis by (simp add: toDouble_def)
next
  case False
  have u: "0 < ulp x" by (rule ulp_pos)
  with assms False have "x / ulp x < 0"
    by (simp add: divide_neg_pos)
  then have "\<lfloor>x / ulp x\<rfloor> \<le> - 1"
    by linarith
  moreover have "roundTiesToEven (x / ulp x) = \<lfloor>x / ulp x\<rfloor>
                 \<or> roundTiesToEven (x / ulp x) = \<lfloor>x / ulp x\<rfloor> + 1"
    by (simp add: roundTiesToEven_def Let_def)
  ultimately have "roundTiesToEven (x / ulp x) \<le> 0"
    by linarith
  then have "ulp x * of_int (roundTiesToEven (x / ulp x)) \<le> 0"
    using u by (intro mult_nonneg_nonpos) simp_all
  then show ?thesis using False by (simp add: toDouble_def)
qed



subsection \<open>Movement\<close>

lemma landingLogic_motion:
  "hasDoubleJumped (landingLogic f s) = (\<not> touchingGround f \<and> hasDoubleJumped s)"
  "jumpDownActive (landingLogic f s) = (\<not> touchingGround f \<and> jumpDownActive s)"
  "coyoteTimeCounter (landingLogic f s)
     = (if touchingGround f then (if jumpBufferCounter s > 0 then 0 else 100)
        else toDouble (coyoteTimeCounter s - delta f))"
  "jumpBufferCounter (landingLogic f s)
     = (if touchingGround f \<and> jumpBufferCounter s > 0 then 0 else jumpBufferCounter s)"
  "velocityYCalls (landingLogic f s)
     = (if touchingGround f \<and> jumpBufferCounter s > 0 then - 575 # velocityYCalls s
        else velocityYCalls s)"
  by (simp_all add: landingLogic_def groundJump_def setVelocityY_def constants Let_def)



lemma jumpLogic_double:
  assumes "isJumpKeyDown f" and "\<not> touchingGround f" and "coyoteTimeCounter s \<le> 0"
    and "\<not> hasDoubleJumped s"
  shows "jumpLogic f s = doubleJump s"
  using assms by (simp add: jumpLogic_def)


lemma groundJump_motion:
  "hasDoubleJumped (groundJump s) = hasDoubleJumped s"
  "jumpDownActive (groundJump s) = jumpDownActive s"
  "coyoteTimeCounter (groundJump s) = 0"
  "jumpBufferCounter (groundJump s) = 0"
  "velocityYCalls (groundJump s) = - 575 # velocityYCalls s"
  by (simp_all add: groundJump_def setVelocityY_def)

lemma doubleJump_motion:
  "hasDoubleJumped (doubleJump s)"
  "jumpDownActive (doubleJump s) = jumpDownActive s"
  "coyoteTimeCounter (doubleJump s) = 0"
  "jumpBufferCounter (doubleJump s) = 0"
  "velocityYCalls (doubleJump s) = - 500 # velocityYCalls s"
  by (simp_all add: doubleJump_def setVelocityY_def)

lemma jumpLogic_jumpDownActive: "jumpDownActive (jumpLogic f s) = jumpDownActive s"
  by (simp add: jumpLogic_def groundJump_def doubleJump_def setVelocityY_def)

lemma jumpDownLogic_motion:
  "hasDoubleJumped (jumpDownLogic f s) = hasDoubleJumped s"
  "coyoteTimeCounter (jumpDownLogic f s) = coyoteTimeCounter s"
  "jumpBufferCounter (jumpDownLogic f s)
     = (if jumpBufferCounter s > 0 then toDouble (jumpBufferCounter s - delta f)
        else jumpBufferCounter s)"
  "jumpDownActive (jumpDownLogic f s)
     = (jumpDownActive s \<or> (jumpBufferCounter s \<le> 0 \<and> isDownKeyDown f \<and> \<not> touchingGround f))"
  "velocityYCalls (jumpDownLogic f s)
     = (if jumpBufferCounter s \<le> 0 \<and> isDownKeyDown f \<and> \<not> touchingGround f
        then 500 # velocityYCalls s else velocityYCalls s)"
  by (auto simp add: jumpDownLogic_def setVelocityY_def)

lemma endGame_motion:
  "hasDoubleJumped (endGame s) = hasDoubleJumped s"
  "jumpDownActive (endGame s) = jumpDownActive s"
  "coyoteTimeCounter (endGame s) = coyoteTimeCounter s"
  "jumpBufferCounter (endGame s) = jumpBufferCounter s"
  "velocityYCalls (endGame s) = velocityYCalls s"
  by (simp_all add: endGame_def cleanupTimers_def Let_def)

lemma boundsCheck_motion:
  "hasDoubleJumped (boundsCheck f s) = hasDoubleJumped s"
  "jumpDownActive (boundsCheck f s) = jumpDownActive s"
  "coyoteTimeCounter (boundsCheck f s) = coyoteTimeCounter s"
  "jumpBufferCounter (boundsCheck f s) = jumpBufferCounter s"
  "velocityYCalls (boundsCheck f s)
     = (if playerY f < - playerHeight f then 0 # velocityYCalls s else velocityYCalls s)"
  by (simp_all add: boundsCheck_alt Let_def endGame_motion setVelocityY_def)

lemma increaseDifficulty_motion:
  "hasDoubleJumped (increaseDifficulty d s) = hasDoubleJumped s"
  "jumpDownActive (increaseDifficulty d s) = jumpDownActive s"
  "coyoteTimeCounter (increaseDifficulty d s) = coyoteTimeCounter s"
  "jumpBufferCounter (increaseDifficulty d s) = jumpBufferCounter s"
  "velocityYCalls (increaseDifficulty d s) = velocityYCalls s"
  by (simp_all add: increaseDifficulty_def Let_def)

text \<open>
  After a frame that gets past its guards, the jump fields are those left by the jump
  down logic, and the velocity log has at most the clamp of the bounds check on top.
\<close>

lemma update_motion:
  assumes "\<not> gameOver s" and "bodyPresent f"
  shows "hasDoubleJumped (update f s)
           = hasDoubleJumped (jumpDownLogic f (jumpLogic f (landingLogic f s)))"
    and "jumpDownActive (update f s)
           = jumpDownActive (jumpDownLogic f (jumpLogic f (landingLogic f s)))"
    and "coyoteTimeCounter (update f s)
           = coyoteTimeCounter (jumpDownLogic f (jumpLogic f (landingLogic f s)))"
    and "jumpBufferCounter (update f s)
           = jumpBufferCounter (jumpDownLogic f (jumpLogic f (landingLogic f s)))"
    and "velocityYCalls (update f s)
           = (if playerY f < - playerHeight f then [0] else [])
             @ velocityYCalls (jumpDownLogic f (jumpLogic f (landingLogic f s)))"
  using assms by (simp_all add: update_def increaseDifficulty_motion boundsCheck_motion)

lemma initialScene_motion:
  "\<not> hasDoubleJumped (initialScene a)"
  "\<not> jumpDownActive (initialScene a)"
  "coyoteTimeCounter (initialScene a) = 0"
  "jumpBufferCounter (initialScene a) = 0"
  "velocityYCalls (initialScene a) = []"
  by (simp_all add: initialScene_def create_fields)

subsection \<open>Jump buffering\<close>











subsection \<open>The buffer window\<close>










section \<open>Hazard collisions and the shield\<close>

text \<open>
  Claim C1. The claim says that with the shield active the first hazard collision
  consumes the shield and a second one ends the run. On the code the collision never
  reaches \<open>hitEnemy\<close>: after twenty pickups have activated the shield, a collision with
  an enemy is rejected by the collider's process callback and the scene stays as it
  was, the shield still active and its duration timer still pending.
\<close>

theorem shield_untouched_by_hazard_collision:
  "powerUpActive (run a (initialScene a) (replicate 20 (CoinOverlap True 5000 Shield)))
   \<and> activePowerUpType (run a (initialScene a) (replicate 20 (CoinOverlap True 5000 Shield)))
       = Some Shield
   \<and> powerUpTimer (run a (initialScene a) (replicate 20 (CoinOverlap True 5000 Shield)))
       = Some 10000
   \<and> \<not> gameOver (run a (initialScene a) (replicate 20 (CoinOverlap True 5000 Shield)))
   \<and> step a EnemyCollide (run a (initialScene a) (replicate 20 (CoinOverlap True 5000 Shield)))
       = run a (initialScene a) (replicate 20 (CoinOverlap True 5000 Shield))"
proof -
  let ?c = "CoinOverlap True 5000 Shield"
  let ?r = "run a (initialScene a) (replicate 19 ?c)"
  let ?s = "run a (initialScene a) (replicate 20 ?c)"
  have r: "\<not> powerUpActive ?r \<and> coinsCollectedForPowerUp ?r = 0 + int 19
            \<and> gameOver ?r = gameOver (initialScene a)"
    using pickups_before_trigger [of "initialScene a" 19 a 5000 Shield]
    by (simp add: initialScene_fields)
  have "replicate (19 + 1) ?c = replicate 19 ?c @ replicate 1 ?c"
    by (rule replicate_add)
  then have "replicate 20 ?c = replicate 19 ?c @ [?c]"
    by simp
  then have s: "?s = collectCoin True 5000 Shield ?r"
    by (simp only: run_snoc step.simps)
  have act: "powerUpActive ?s" and ty: "activePowerUpType ?s = Some Shield"
    and tm: "powerUpTimer ?s = Some 10000" and go: "\<not> gameOver ?s"
    using r by (simp_all only: s collectCoin_powerUp collectCoin_gameOver initialScene_fields
        powerUpDuration_def) simp_all
  have "step a EnemyCollide ?s = ?s"
    using act by (simp add: enemyCollider_powerUpActive)
  with act ty tm go show ?thesis by blast
qed

text \<open>
  Claim C10. While a power-up is active, the speed boost as much as the shield, the
  process callback of the enemy colliders returns \<open>false\<close>, so a collision with a ground
  or flying enemy is never handed to \<open>hitEnemy\<close>: the scene is left exactly as it was,
  the run does not end and the power-up state does not change, however many collisions
  arrive.
\<close>

theorem powerUp_suppresses_hazard_collisions:
  "powerUpActive s \<Longrightarrow>
     step a EnemyCollide s = s \<and> run a s (replicate n EnemyCollide) = s"
proof -
  assume act: "powerUpActive s"
  then have one: "step a EnemyCollide s = s"
    by (simp add: enemyCollider_powerUpActive)
  have "run a s (replicate n EnemyCollide) = s"
    using act by (induction n) (simp_all add: enemyCollider_powerUpActive)
  with one show ?thesis by simp
qed

theorem powerUp_suppresses_hazard_collisions_witness:
  "powerUpActive (triggerPowerUp Speed (initialScene sampleAssets))
   \<and> activePowerUpType (triggerPowerUp Speed (initialScene sampleAssets)) = Some Speed
   \<and> step sampleAssets EnemyCollide (triggerPowerUp Speed (initialScene sampleAssets))
       = triggerPowerUp Speed (initialScene sampleAssets)
   \<and> run sampleAssets (triggerPowerUp Speed (initialScene sampleAssets))
         (replicate 3 EnemyCollide)
       = triggerPowerUp Speed (initialScene sampleAssets)"
proof -
  have act: "powerUpActive (triggerPowerUp Speed (initialScene sampleAssets))"
    by (simp add: triggerPowerUp_def initialScene_fields Let_def)
  have ty: "activePowerUpType (triggerPowerUp Speed (initialScene sampleAssets)) = Some Speed"
    by (simp add: triggerPowerUp_def initialScene_fields Let_def)
  show ?thesis
    using act ty powerUp_suppresses_hazard_collisions [OF act, of sampleAssets 3] by simp
qed

section \<open>Pits\<close>

text \<open>
  Claim C9, as stated: an overlap with a pit ends an active run exactly when the player
  touches the ground and the bottom of its body is at or below the top of the pit. This
  fails where the player has sunk less than 5 pixels into the pit: the player touches
  the ground, its bottom (102) is below the pit's top (100) and the bodies overlap, and
  the run goes on.
\<close>

theorem pit_shallow_overlap_counterexample:
  "\<not> gameOver (initialScene sampleAssets)
   \<and> \<not> (gameOver (playerFellInPit True 102 100 (initialScene sampleAssets))
          \<longleftrightarrow> (True \<and> (102::real) \<ge> 100))"
  by (simp add: playerFellInPit_def initialScene_fields)

text \<open>
  Claim C9, amended: an overlap with a pit ends an active run exactly when the player
  touches the ground and the bottom of its body is at least 5 pixels below the top of
  the pit. In particular an overlap while airborne never ends the run.
\<close>

theorem pit_ends_run_iff_grounded_and_five_below_top:
  "\<not> gameOver s \<Longrightarrow>
     (gameOver (playerFellInPit touchingDown playerBottom pitTop s)
        \<longleftrightarrow> (touchingDown \<and> playerBottom \<ge> pitTop + 5))
     \<and> \<not> gameOver (playerFellInPit False playerBottom pitTop s)"
  by (simp add: playerFellInPit_def endGame_gameOver)

theorem pit_ends_run_iff_grounded_and_five_below_top_witness:
  "\<not> gameOver (initialScene sampleAssets)
   \<and> gameOver (playerFellInPit True 105 100 (initialScene sampleAssets))
   \<and> \<not> gameOver (playerFellInPit True 104 100 (initialScene sampleAssets))
   \<and> \<not> gameOver (playerFellInPit False 105 100 (initialScene sampleAssets))"
proof -
  have run: "\<not> gameOver (initialScene sampleAssets)"
    by (simp add: initialScene_fields)
  show ?thesis
    using run
      pit_ends_run_iff_grounded_and_five_below_top [OF run, of True 105 100]
      pit_ends_run_iff_grounded_and_five_below_top [OF run, of True 104 100]
    by simp
qed

section \<open>The difficulty ramp\<close>

text \<open>
  Claim C3. Along every sequence of callbacks from scene creation, whatever the frame
  deltas, \<open>scrollSpeed\<close> never exceeds \<open>maxScrollSpeed\<close> (750) and \<open>spawnDelay\<close> never
  drops below \<open>minSpawnDelay\<close> (400). Within a single run, the frame deltas being elapsed
  times and so not negative, \<open>scrollSpeed\<close> never decreases and \<open>spawnDelay\<close> never
  increases from one scene of the trace to the next.
\<close>

theorem difficulty_ramp_monotone_and_bounded:
  "(\<forall>t \<in> set (trace a (initialScene a) es).
       scrollSpeed t \<le> maxScrollSpeed \<and> minSpawnDelay \<le> spawnDelay t)
   \<and> ((\<forall>e \<in> set es. nonNegativeDelta e) \<and> singleRun a (initialScene a) es \<longrightarrow>
        sorted_wrt (\<le>) (map scrollSpeed (trace a (initialScene a) es))
        \<and> sorted_wrt (\<ge>) (map spawnDelay (trace a (initialScene a) es)))"
  using trace_bounds [of "initialScene a" a es] trace_sorted [of es a "initialScene a"]
  by (simp add: initialScene_fields constants)

theorem difficulty_ramp_monotone_and_bounded_witness:
  "nonNegativeDelta (Update (frameAt 16 False False True))
   \<and> nonNegativeDelta EnemyCollide
   \<and> singleRun sampleAssets (initialScene sampleAssets)
        [Update (frameAt 16 False False True), EnemyCollide, Update (frameAt 16 False False True)]
   \<and> sorted_wrt (\<le>) (map scrollSpeed (trace sampleAssets (initialScene sampleAssets)
        [Update (frameAt 16 False False True), EnemyCollide, Update (frameAt 16 False False True)]))
   \<and> sorted_wrt (\<ge>) (map spawnDelay (trace sampleAssets (initialScene sampleAssets)
        [Update (frameAt 16 False False True), EnemyCollide, Update (frameAt 16 False False True)]))
   \<and> scrollSpeed (update (frameAt 16 False False True) (initialScene sampleAssets)) \<le> 750
   \<and> scrollSpeed (update (frameAt 16 False False True) (initialScene sampleAssets)) = 250096 / 1000
   \<and> spawnDelay (update (frameAt 16 False False True) (initialScene sampleAssets)) = 1699712 / 1000"
proof -
  let ?es = "[Update (frameAt 16 False False True), EnemyCollide,
              Update (frameAt 16 False False True)]"
  have nn: "\<forall>e \<in> set ?es. nonNegativeDelta e"
    by (simp add: frameAt_fields)
  have sr: "singleRun sampleAssets (initialScene sampleAssets) ?es"
    by simp
  have vals: "scrollSpeed (update (frameAt 16 False False True) (initialScene sampleAssets))
                = 250096 / 1000"
    "spawnDelay (update (frameAt 16 False False True) (initialScene sampleAssets))
                = 1699712 / 1000"
    by (simp_all add: update_speed initialScene_fields frameAt_fields)
  show ?thesis
    using nn sr vals difficulty_ramp_monotone_and_bounded [of sampleAssets ?es]
    by (simp add: constants)
qed

section \<open>Spawn cadences\<close>

text \<open>
  Claim C5, as stated: during a run the pit timer's delay is the larger of twice the
  spawn delay and 2.5 times the minimum spawn delay. This fails after the first frame:
  with a delta of 50 ms the spawn delay is 1699.1 and the claim gives 3398.2, while the
  pit timer's delay is 3058.38, which is 1.8 times the spawn delay.
\<close>

theorem pit_cadence_counterexample:
  "\<not> gameOver (run sampleAssets (initialScene sampleAssets) [Update (frameAt 50 False False True)])
   \<and> spawnDelay (run sampleAssets (initialScene sampleAssets)
        [Update (frameAt 50 False False True)]) = 16991 / 10
   \<and> gapSpawnTimer (run sampleAssets (initialScene sampleAssets)
        [Update (frameAt 50 False False True)]) = Some (305838 / 100)
   \<and> max (2 * spawnDelay (run sampleAssets (initialScene sampleAssets)
        [Update (frameAt 50 False False True)])) (25 / 10 * minSpawnDelay) = 33982 / 10"
proof -
  let ?r = "update (frameAt 50 False False True) (initialScene sampleAssets)"
  have go: "\<not> gameOver ?r"
    by (simp add: update_gameOver initialScene_fields frameAt_fields)
  have sd: "spawnDelay ?r = 16991 / 10"
    by (simp add: update_speed initialScene_fields frameAt_fields)
  have "cadences True ?r"
    using update_cadences [of "initialScene sampleAssets" False "frameAt 50 False False True"]
      initialScene_cadences [of sampleAssets] go
    by (simp add: initialScene_fields frameAt_fields)
  then have "gapSpawnTimer ?r = Some (max (spawnDelay ?r * (18 / 10)) 1000)"
    by (simp add: cadences_def minSpawnDelay_def)
  then have gap: "gapSpawnTimer ?r = Some (305838 / 100)"
    by (simp only: sd) simp
  show ?thesis
    by (simp add: go sd gap minSpawnDelay_def)
qed

text \<open>
  Claim C5, amended: at all times during a run the coin timer's delay is 1.1 times the
  spawn delay and the enemy timer's delay is the spawn delay; the pit timer's delay is
  twice the spawn delay from scene creation until the first tick, and from the first
  tick on it is the larger of 1.8 times the spawn delay and 2.5 times the minimum spawn
  delay.
\<close>

theorem spawn_cadences_follow_spawn_delay:
  assumes "singleRun a (initialScene a) es" and "\<not> gameOver (run a (initialScene a) es)"
  shows "coinSpawnTimer (run a (initialScene a) es)
           = Some (spawnDelay (run a (initialScene a) es) * (11 / 10))
         \<and> enemySpawnTimer (run a (initialScene a) es)
           = Some (spawnDelay (run a (initialScene a) es))
         \<and> gapSpawnTimer (run a (initialScene a) es)
           = Some (if \<exists>e \<in> set es. ticks e
                   then max (spawnDelay (run a (initialScene a) es) * (18 / 10))
                            (minSpawnDelay * (25 / 10))
                   else spawnDelay (run a (initialScene a) es) * 2)"
  using run_cadences [OF assms(1) _ assms(2), of False] initialScene_cadences [of a]
  by (simp add: cadences_def)

theorem spawn_cadences_follow_spawn_delay_witness:
  "singleRun sampleAssets (initialScene sampleAssets) [Update (frameAt 50 False False True)]
   \<and> \<not> gameOver (run sampleAssets (initialScene sampleAssets)
          [Update (frameAt 50 False False True)])
   \<and> coinSpawnTimer (run sampleAssets (initialScene sampleAssets)
        [Update (frameAt 50 False False True)]) = Some (186901 / 100)
   \<and> enemySpawnTimer (run sampleAssets (initialScene sampleAssets)
        [Update (frameAt 50 False False True)]) = Some (16991 / 10)
   \<and> gapSpawnTimer (run sampleAssets (initialScene sampleAssets)
        [Update (frameAt 50 False False True)]) = Some (305838 / 100)
   \<and> gapSpawnTimer (run sampleAssets (initialScene sampleAssets) []) = Some 3400"
proof -
  let ?r = "update (frameAt 50 False False True) (initialScene sampleAssets)"
  have go: "\<not> gameOver ?r"
    by (simp add: update_gameOver initialScene_fields frameAt_fields)
  have sd: "spawnDelay ?r = 16991 / 10"
    by (simp add: update_speed initialScene_fields frameAt_fields)
  have one: "coinSpawnTimer ?r = Some (spawnDelay ?r * (11 / 10))
             \<and> enemySpawnTimer ?r = Some (spawnDelay ?r)
             \<and> gapSpawnTimer ?r = Some (max (spawnDelay ?r * (18 / 10)) 1000)"
    using spawn_cadences_follow_spawn_delay
            [of sampleAssets "[Update (frameAt 50 False False True)]"] go
    by (simp add: frameAt_fields minSpawnDelay_def)
  have none: "gapSpawnTimer (initialScene sampleAssets) = Some 3400"
    using spawn_cadences_follow_spawn_delay [of sampleAssets "[]"]
    by (simp add: initialScene_fields)
  from one have vals: "coinSpawnTimer ?r = Some (186901 / 100)"
    "enemySpawnTimer ?r = Some (16991 / 10)" "gapSpawnTimer ?r = Some (305838 / 100)"
    by (simp_all only: sd) simp_all
  show ?thesis
    by (simp add: go vals none)
qed

section \<open>Restart\<close>

text \<open>
  Claim C2. The claim says that a restart puts every field of the run state back to its
  value at creation, naming the combo count, the multiplier and the time of the last
  pickup. On the code \<open>create\<close> resets the score but assigns none of these three: after
  three pickups at 5000, 5100 and 5200 ms, a fatal collision and a restart, the scene
  is running again with score 0, but with combo count 3, multiplier 2 and last pickup
  time 5200, where a freshly created scene has 0, 1 and 0.
\<close>

theorem restart_keeps_combo_state:
  "\<not> gameOver (run a (initialScene a)
        [CoinOverlap True 5000 Speed, CoinOverlap True 5100 Speed, CoinOverlap True 5200 Speed,
         EnemyCollide, KeydownSpace False])
   \<and> score (run a (initialScene a)
        [CoinOverlap True 5000 Speed, CoinOverlap True 5100 Speed, CoinOverlap True 5200 Speed,
         EnemyCollide, KeydownSpace False]) = 0
   \<and> comboCount (run a (initialScene a)
        [CoinOverlap True 5000 Speed, CoinOverlap True 5100 Speed, CoinOverlap True 5200 Speed,
         EnemyCollide, KeydownSpace False]) = 3
   \<and> scoreMultiplier (run a (initialScene a)
        [CoinOverlap True 5000 Speed, CoinOverlap True 5100 Speed, CoinOverlap True 5200 Speed,
         EnemyCollide, KeydownSpace False]) = 2
   \<and> lastCoinCollectTime (run a (initialScene a)
        [CoinOverlap True 5000 Speed, CoinOverlap True 5100 Speed, CoinOverlap True 5200 Speed,
         EnemyCollide, KeydownSpace False]) = 5200
   \<and> comboCount (initialScene a) = 0
   \<and> scoreMultiplier (initialScene a) = 1
   \<and> lastCoinCollectTime (initialScene a) = 0"
proof -
  let ?s1 = "collectCoin True 5000 Speed (initialScene a)"
  let ?s2 = "collectCoin True 5100 Speed ?s1"
  let ?s3 = "collectCoin True 5200 Speed ?s2"
  have c1: "comboCount ?s1 = 1"
    by (simp add: collectCoin_comboCount initialScene_fields)
  have c2: "comboCount ?s2 = 2"
    by (simp add: collectCoin_comboCount [of 5100] collectCoin_lastCoinCollectTime c1)
  have c3: "comboCount ?s3 = 3" "scoreMultiplier ?s3 = 2" "lastCoinCollectTime ?s3 = 5200"
    by (simp_all add: collectCoin_comboCount [of 5200] collectCoin_scoreMultiplier [of 5200]
          collectCoin_lastCoinCollectTime c2)
  have p3: "\<not> powerUpActive ?s3" "\<not> gameOver ?s3"
    by (simp_all add: collectCoin_powerUp collectCoin_gameOver initialScene_fields)
  let ?s4 = "enemyCollider ?s3"
  have s4: "?s4 = endGame ?s3"
    using p3 by (simp add: enemyCollider_alt)
  have g4: "gameOver ?s4"
    by (simp only: s4 endGame_gameOver)
  have c4: "comboCount ?s4 = 3" "scoreMultiplier ?s4 = 2" "lastCoinCollectTime ?s4 = 5200"
    by (simp_all only: s4 endGame_combo c3)
  let ?s5 = "restartGame a False ?s4"
  have "\<not> gameOver ?s5" "score ?s5 = 0" "comboCount ?s5 = 3" "scoreMultiplier ?s5 = 2"
    "lastCoinCollectTime ?s5 = 5200"
    using restartGame_fields [OF g4, of a] c4 by simp_all
  then show ?thesis
    by (simp add: initialScene_fields)
qed

section \<open>Combo and scoring\<close>

text \<open>
  Claim C4. On every pickup of an active coin, the combo count is reset to 1 when the
  time since the previous pickup is at least 1500 ms and incremented otherwise; the
  multiplier after the pickup is 1 for a combo count below 3, 2 for 3 to 4, 3 for 5 to 7
  and 4 from 8 on; the score grows by 10 times that multiplier; and the time of the
  pickup is recorded.
\<close>

theorem combo_and_multiplier_on_pickup:
  "(now - lastCoinCollectTime s \<ge> 1500 \<longrightarrow> comboCount (collectCoin True now pick s) = 1)
   \<and> (now - lastCoinCollectTime s < 1500 \<longrightarrow>
        comboCount (collectCoin True now pick s) = comboCount s + 1)
   \<and> (comboCount (collectCoin True now pick s) < 3 \<longrightarrow>
        scoreMultiplier (collectCoin True now pick s) = 1)
   \<and> (3 \<le> comboCount (collectCoin True now pick s)
        \<and> comboCount (collectCoin True now pick s) \<le> 4 \<longrightarrow>
        scoreMultiplier (collectCoin True now pick s) = 2)
   \<and> (5 \<le> comboCount (collectCoin True now pick s)
        \<and> comboCount (collectCoin True now pick s) \<le> 7 \<longrightarrow>
        scoreMultiplier (collectCoin True now pick s) = 3)
   \<and> (8 \<le> comboCount (collectCoin True now pick s) \<longrightarrow>
        scoreMultiplier (collectCoin True now pick s) = 4)
   \<and> score (collectCoin True now pick s)
        = score s + 10 * scoreMultiplier (collectCoin True now pick s)
   \<and> lastCoinCollectTime (collectCoin True now pick s) = now"
  by (simp add: collectCoin_comboCount collectCoin_scoreMultiplier collectCoin_score
        collectCoin_lastCoinCollectTime)

theorem combo_and_multiplier_on_pickup_witness:
  "comboCount (collectCoin True 0 Speed (initialScene sampleAssets)) = 1
   \<and> score (collectCoin True 0 Speed (initialScene sampleAssets)) = 10
   \<and> comboCount (collectCoin True 200 Speed
        (collectCoin True 0 Speed (initialScene sampleAssets))) = 2
   \<and> score (collectCoin True 200 Speed
        (collectCoin True 0 Speed (initialScene sampleAssets))) = 20
   \<and> comboCount (collectCoin True 400 Speed (collectCoin True 200 Speed
        (collectCoin True 0 Speed (initialScene sampleAssets)))) = 3
   \<and> scoreMultiplier (collectCoin True 400 Speed (collectCoin True 200 Speed
        (collectCoin True 0 Speed (initialScene sampleAssets)))) = 2
   \<and> score (collectCoin True 400 Speed (collectCoin True 200 Speed
        (collectCoin True 0 Speed (initialScene sampleAssets)))) = 40
   \<and> comboCount (collectCoin True 2500 Speed (collectCoin True 400 Speed
        (collectCoin True 200 Speed (collectCoin True 0 Speed (initialScene sampleAssets))))) = 1
   \<and> scoreMultiplier (collectCoin True 2500 Speed (collectCoin True 400 Speed
        (collectCoin True 200 Speed (collectCoin True 0 Speed (initialScene sampleAssets))))) = 1
   \<and> score (collectCoin True 2500 Speed (collectCoin True 400 Speed
        (collectCoin True 200 Speed (collectCoin True 0 Speed (initialScene sampleAssets))))) = 50"
proof -
  let ?s0 = "initialScene sampleAssets"
  let ?s1 = "collectCoin True 0 Speed ?s0"
  let ?s2 = "collectCoin True 200 Speed ?s1"
  let ?s3 = "collectCoin True 400 Speed ?s2"
  let ?s4 = "collectCoin True 2500 Speed ?s3"
  have f1: "comboCount ?s1 = 1 \<and> scoreMultiplier ?s1 = 1 \<and> score ?s1 = 10
            \<and> lastCoinCollectTime ?s1 = 0"
    using combo_and_multiplier_on_pickup [of 0 ?s0 Speed]
    by (simp add: initialScene_fields)
  have f2: "comboCount ?s2 = 2 \<and> scoreMultiplier ?s2 = 1 \<and> score ?s2 = 20
            \<and> lastCoinCollectTime ?s2 = 200"
    using combo_and_multiplier_on_pickup [of 200 ?s1 Speed] f1 by simp
  have f3: "comboCount ?s3 = 3 \<and> scoreMultiplier ?s3 = 2 \<and> score ?s3 = 40
            \<and> lastCoinCollectTime ?s3 = 400"
    using combo_and_multiplier_on_pickup [of 400 ?s2 Speed] f2 by simp
  have f4: "comboCount ?s4 = 1 \<and> scoreMultiplier ?s4 = 1 \<and> score ?s4 = 50"
    using combo_and_multiplier_on_pickup [of 2500 ?s3 Speed] f3 by simp
  from f1 f2 f3 f4 show ?thesis by simp
qed

section \<open>The power-up trigger\<close>

text \<open>
  Claim C6. A pickup triggers a power-up exactly when no power-up is active and the
  pickup counter, incremented by this pickup, has reached 20 (is 20 or more). On a
  trigger the counter is reset to 0, the picked type becomes the active one and the
  duration timer is started. Otherwise, in particular while a power-up is active, the
  counter is only incremented and the power-up fields are left alone. In every scene
  reached from creation the power-up fields are consistent: the one type field is set
  exactly while a power-up is active, and a duration timer is pending only then.
\<close>

theorem powerUp_triggers_on_twentieth_pickup:
  "((\<not> powerUpActive s \<and> powerUpActive (collectCoin True now pick s))
      \<longleftrightarrow> (\<not> powerUpActive s \<and> coinsCollectedForPowerUp s + 1 \<ge> 20))
   \<and> (\<not> powerUpActive s \<and> coinsCollectedForPowerUp s + 1 \<ge> 20 \<longrightarrow>
         coinsCollectedForPowerUp (collectCoin True now pick s) = 0
         \<and> activePowerUpType (collectCoin True now pick s) = Some pick
         \<and> powerUpTimer (collectCoin True now pick s) = Some powerUpDuration)
   \<and> (\<not> (\<not> powerUpActive s \<and> coinsCollectedForPowerUp s + 1 \<ge> 20) \<longrightarrow>
         coinsCollectedForPowerUp (collectCoin True now pick s) = coinsCollectedForPowerUp s + 1
         \<and> powerUpActive (collectCoin True now pick s) = powerUpActive s
         \<and> activePowerUpType (collectCoin True now pick s) = activePowerUpType s
         \<and> powerUpTimer (collectCoin True now pick s) = powerUpTimer s)
   \<and> powerUpConsistent (run a (initialScene a) es)"
  using run_powerUpConsistent [OF initialScene_powerUpConsistent, of a a es]
  by (auto simp add: collectCoin_powerUp)

theorem powerUp_triggers_on_twentieth_pickup_witness:
  "\<not> powerUpActive (run sampleAssets (initialScene sampleAssets)
        (replicate 19 (CoinOverlap True 5000 Shield)))
   \<and> coinsCollectedForPowerUp (run sampleAssets (initialScene sampleAssets)
        (replicate 19 (CoinOverlap True 5000 Shield))) = 19
   \<and> powerUpActive (collectCoin True 5000 Shield (run sampleAssets (initialScene sampleAssets)
        (replicate 19 (CoinOverlap True 5000 Shield))))
   \<and> activePowerUpType (collectCoin True 5000 Shield
        (run sampleAssets (initialScene sampleAssets)
          (replicate 19 (CoinOverlap True 5000 Shield)))) = Some Shield
   \<and> coinsCollectedForPowerUp (collectCoin True 5000 Shield
        (run sampleAssets (initialScene sampleAssets)
          (replicate 19 (CoinOverlap True 5000 Shield)))) = 0
   \<and> activePowerUpType (collectCoin True 5100 Speed (collectCoin True 5000 Shield
        (run sampleAssets (initialScene sampleAssets)
          (replicate 19 (CoinOverlap True 5000 Shield))))) = Some Shield
   \<and> coinsCollectedForPowerUp (collectCoin True 5100 Speed (collectCoin True 5000 Shield
        (run sampleAssets (initialScene sampleAssets)
          (replicate 19 (CoinOverlap True 5000 Shield))))) = 1"
proof -
  let ?r = "run sampleAssets (initialScene sampleAssets)
              (replicate 19 (CoinOverlap True 5000 Shield))"
  let ?s = "collectCoin True 5000 Shield ?r"
  let ?t = "collectCoin True 5100 Speed ?s"
  have r: "\<not> powerUpActive ?r \<and> coinsCollectedForPowerUp ?r = 19"
    using pickups_before_trigger [of "initialScene sampleAssets" 19 sampleAssets 5000 Shield]
    by (simp add: initialScene_fields)
  have s: "powerUpActive ?s \<and> activePowerUpType ?s = Some Shield
           \<and> coinsCollectedForPowerUp ?s = 0"
    using powerUp_triggers_on_twentieth_pickup [of ?r 5000 Shield sampleAssets "[]"] r
    by simp
  have t: "activePowerUpType ?t = Some Shield \<and> coinsCollectedForPowerUp ?t = 1"
    using powerUp_triggers_on_twentieth_pickup [of ?s 5100 Speed sampleAssets "[]"] s
    by simp
  from r s t show ?thesis by blast
qed

section \<open>Fast fall\<close>

text \<open>
  Claim C8. In a frame where the player is airborne and the down key is pressed, the
  jump buffer counter is looked at as the jump input of that frame has left it. If it is
  not positive, \<open>setVelocityY(500)\<close> is called and \<open>jumpDownActive\<close> is set. If it is
  positive, the frame only decrements the counter: no downward velocity is set and
  \<open>jumpDownActive\<close> keeps its value, so the down key has no effect. The last two
  conjuncts say what the jump input of an airborne frame leaves in the counter and in
  the velocity log.
\<close>

theorem fast_fall_unless_jump_buffered:
  assumes "\<not> gameOver s" and "bodyPresent f" and "\<not> touchingGround f" and "isDownKeyDown f"
  shows "(jumpBufferCounter (jumpLogic f (landingLogic f s)) \<le> 0 \<longrightarrow>
            jumpDownActive (update f s)
            \<and> velocityYCalls (update f s)
                = (if playerY f < - playerHeight f then [0] else [])
                  @ 500 # velocityYCalls (jumpLogic f (landingLogic f s)))
         \<and> (jumpBufferCounter (jumpLogic f (landingLogic f s)) > 0 \<longrightarrow>
            jumpDownActive (update f s) = jumpDownActive s
            \<and> velocityYCalls (update f s)
                = (if playerY f < - playerHeight f then [0] else [])
                  @ velocityYCalls (jumpLogic f (landingLogic f s))
            \<and> jumpBufferCounter (update f s)
                = toDouble (jumpBufferCounter (jumpLogic f (landingLogic f s)) - delta f))
         \<and> jumpBufferCounter (jumpLogic f (landingLogic f s))
             = (if isJumpKeyDown f
                then (if toDouble (coyoteTimeCounter s - delta f) > 0 \<or> \<not> hasDoubleJumped s then 0
                      else jumpBufferDuration)
                else jumpBufferCounter s)
         \<and> velocityYCalls (jumpLogic f (landingLogic f s))
             = (if isJumpKeyDown f
                then (if toDouble (coyoteTimeCounter s - delta f) > 0 then - 575 # velocityYCalls s
                      else if \<not> hasDoubleJumped s then - 500 # velocityYCalls s
                      else velocityYCalls s)
                else velocityYCalls s)"
proof -
  let ?l = "landingLogic f s"
  let ?m = "jumpLogic f ?l"
  have l: "hasDoubleJumped ?l = hasDoubleJumped s" "jumpDownActive ?l = jumpDownActive s"
    "coyoteTimeCounter ?l = toDouble (coyoteTimeCounter s - delta f)"
    "jumpBufferCounter ?l = jumpBufferCounter s" "velocityYCalls ?l = velocityYCalls s"
    using assms(3) by (simp_all add: landingLogic_motion)
  have buf: "jumpBufferCounter ?m
               = (if isJumpKeyDown f
                  then (if toDouble (coyoteTimeCounter s - delta f) > 0 \<or> \<not> hasDoubleJumped s then 0
                        else jumpBufferDuration)
                  else jumpBufferCounter s)"
    and calls: "velocityYCalls ?m
               = (if isJumpKeyDown f
                  then (if toDouble (coyoteTimeCounter s - delta f) > 0 then - 575 # velocityYCalls s
                        else if \<not> hasDoubleJumped s then - 500 # velocityYCalls s
                        else velocityYCalls s)
                  else velocityYCalls s)"
    using assms(3) l
    by (simp_all add: jumpLogic_def groundJump_motion doubleJump_motion)
  have jd: "jumpDownActive ?m = jumpDownActive s"
    by (simp add: jumpLogic_jumpDownActive l)
  have "jumpBufferCounter ?m \<le> 0 \<longrightarrow>
          jumpDownActive (update f s)
          \<and> velocityYCalls (update f s)
              = (if playerY f < - playerHeight f then [0] else []) @ 500 # velocityYCalls ?m"
    using assms by (simp add: update_motion jumpDownLogic_motion)
  moreover have "jumpBufferCounter ?m > 0 \<longrightarrow>
          jumpDownActive (update f s) = jumpDownActive s
          \<and> velocityYCalls (update f s)
              = (if playerY f < - playerHeight f then [0] else []) @ velocityYCalls ?m
          \<and> jumpBufferCounter (update f s) = toDouble (jumpBufferCounter ?m - delta f)"
    using assms jd by (simp add: update_motion jumpDownLogic_motion)
  ultimately show ?thesis
    using buf calls by blast
qed

theorem fast_fall_unless_jump_buffered_witness:
  "\<not> gameOver (initialScene sampleAssets)
   \<and> jumpDownActive (update (frameAt 16 False True False) (initialScene sampleAssets))
   \<and> velocityYCalls (update (frameAt 16 False True False) (initialScene sampleAssets)) = [500]
   \<and> hasDoubleJumped (update (frameAt 16 True False False) (initialScene sampleAssets))
   \<and> \<not> jumpDownActive (update (frameAt 16 True True False)
          (update (frameAt 16 True False False) (initialScene sampleAssets)))
   \<and> velocityYCalls (update (frameAt 16 True True False)
          (update (frameAt 16 True False False) (initialScene sampleAssets))) = [- 500]
   \<and> jumpBufferCounter (update (frameAt 16 True True False)
          (update (frameAt 16 True False False) (initialScene sampleAssets))) = 84"
proof -
  let ?s0 = "initialScene sampleAssets"
  let ?s1 = "update (frameAt 16 True False False) ?s0"
  have g0: "\<not> gameOver ?s0"
    by (simp add: initialScene_fields)
  have a: "jumpDownActive (update (frameAt 16 False True False) ?s0)
           \<and> velocityYCalls (update (frameAt 16 False True False) ?s0) = [500]"
    using fast_fall_unless_jump_buffered [of ?s0 "frameAt 16 False True False"] g0
    by (simp add: frameAt_fields initialScene_motion)
  have m1: "jumpLogic (frameAt 16 True False False)
              (landingLogic (frameAt 16 True False False) ?s0)
            = doubleJump (landingLogic (frameAt 16 True False False) ?s0)"
    by (rule jumpLogic_double)
      (simp_all add: frameAt_fields landingLogic_motion initialScene_motion toDouble_nonpos)
  have s1: "\<not> gameOver ?s1" "hasDoubleJumped ?s1" "\<not> jumpDownActive ?s1"
    "coyoteTimeCounter ?s1 = 0" "velocityYCalls ?s1 = [- 500]"
    using g0
    by (simp_all add: update_gameOver update_motion frameAt_fields m1 jumpDownLogic_motion
          doubleJump_motion landingLogic_motion initialScene_motion)
  have d84: "toDouble 84 = 84"
    using toDouble_of_int [of 84] by simp
  have n16: "\<not> 0 < toDouble (- 16)"
    using toDouble_nonpos [of "- 16"] by simp
  have b: "\<not> jumpDownActive (update (frameAt 16 True True False) ?s1)
           \<and> velocityYCalls (update (frameAt 16 True True False) ?s1) = [- 500]
           \<and> jumpBufferCounter (update (frameAt 16 True True False) ?s1) = 84"
    using fast_fall_unless_jump_buffered [of ?s1 "frameAt 16 True True False"] s1
    by (simp add: frameAt_fields jumpBufferDuration_def d84 n16)
  from g0 a s1(2) b show ?thesis by blast
qed

section \<open>Jump buffering\<close>




end
